theory Spec2Isabelle
  imports Main "HOL-Library.AList" "HOL-Library.Char_ord" "HOL-Library.List_Lexorder"
begin

section \<open>The XSD to LAMMPS converter (xsd\_to\_lammps.py)\<close>

text \<open>
  A shallow embedding of class \<open>XSDtoLAMMPS\<close>. The object is a record that every method
  takes and returns; a Python exception is a value \<open>Inl e\<close>; a \<open>dict\<close> is an association
  list in insertion order (\<open>AList.update\<close> overwrites an existing key in place and appends a
  new one, as a Python dict does); the written file is the list of the strings passed to
  \<open>f.write\<close>. A \<open>str\<close> is the list of its characters, compared by code point. Calls to
  \<open>print\<close> are left out.
\<close>

subsection \<open>The interpreter's builtins\<close>

datatype py_error = TypeError | ValueError | KeyError

text \<open>
  Floating point numbers are an abstract type \<open>'f\<close>. What the converter does with them is
  a parameter of the model: \<open>int(s)\<close> and \<open>float(s)\<close> on a string (\<open>None\<close> when they raise
  \<open>ValueError\<close>), the constants \<open>0.0\<close> and \<open>10.0\<close>, the comparison \<open><\<close>, addition,
  subtraction, and \<open>format(v, '.nf')\<close>.
\<close>

record 'f pyops =
  p_int :: "string \<Rightarrow> int option"
  p_float :: "string \<Rightarrow> 'f option"
  f_zero :: 'f
  f_ten :: 'f
  f_lt :: "'f \<Rightarrow> 'f \<Rightarrow> bool"
  f_add :: "'f \<Rightarrow> 'f \<Rightarrow> 'f"
  f_sub :: "'f \<Rightarrow> 'f \<Rightarrow> 'f"
  f_fmt :: "nat \<Rightarrow> 'f \<Rightarrow> string"

text \<open>\<open>d[k]\<close>: raises \<open>KeyError\<close> on a missing key.\<close>

definition dict_get :: "('k \<times> 'v) list \<Rightarrow> 'k \<Rightarrow> py_error + 'v" where
  "dict_get d k = (case map_of d k of None \<Rightarrow> Inl KeyError | Some v \<Rightarrow> Inr v)"

text \<open>\<open>s.split(c)\<close> for a one-character separator.\<close>

fun split_on :: "char \<Rightarrow> string \<Rightarrow> string list" where
  "split_on c [] = [[]]"
| "split_on c (x # xs) =
     (if x = c then [] # split_on c xs
      else (case split_on c xs of [] \<Rightarrow> [[x]] | p # ps \<Rightarrow> (x # p) # ps))"

text \<open>\<open>s.strip()\<close>: the whitespace characters of \<open>str\<close> below code point 256.\<close>

definition py_isspace :: "char \<Rightarrow> bool" where
  "py_isspace c = ((of_char c :: nat) \<in> {9, 10, 11, 12, 13, 28, 29, 30, 31, 32, 133, 160})"

definition strip :: "string \<Rightarrow> string" where
  "strip s = rev (dropWhile py_isspace (rev (dropWhile py_isspace s)))"

text \<open>\<open>tuple(sorted([a, b]))\<close>: the sort is stable and swaps only when \<open>b < a\<close>.\<close>

definition sorted_pair :: "'a::linorder \<Rightarrow> 'a \<Rightarrow> 'a \<times> 'a" where
  "sorted_pair a b = (if b < a then (b, a) else (a, b))"

text \<open>\<open>str(n)\<close> for a non-negative integer.\<close>

fun show_nat :: "nat \<Rightarrow> string" where
  "show_nat n =
     (if n < 10 then [char_of (48 + n)]
      else show_nat (n div 10) @ [char_of (48 + n mod 10)])"

declare show_nat.simps [simp del]

text \<open>
  \<open>min(xs)\<close> and \<open>max(xs)\<close>: the first element is the candidate, a later item replaces it
  when \<open>item < candidate\<close> (for \<open>max\<close>: \<open>item > candidate\<close>); \<open>ValueError\<close> on an empty list.
\<close>

definition py_min :: "'f pyops \<Rightarrow> 'f list \<Rightarrow> py_error + 'f" where
  "py_min P xs =
     (case xs of [] \<Rightarrow> Inl ValueError
      | x # rest \<Rightarrow> Inr (fold (\<lambda>item cand. if f_lt P item cand then item else cand) rest x))"

definition py_max :: "'f pyops \<Rightarrow> 'f list \<Rightarrow> py_error + 'f" where
  "py_max P xs =
     (case xs of [] \<Rightarrow> Inl ValueError
      | x # rest \<Rightarrow> Inr (fold (\<lambda>item cand. if f_lt P cand item then item else cand) rest x))"

subsection \<open>The parsed document (xml.etree.ElementTree)\<close>

text \<open>
  An \<open>Element\<close>: tag, attribute dictionary, text (\<open>None\<close> when there is none) and child
  elements. The model starts from the tree \<open>ET.parse\<close> returns; a file that is not
  well-formed XML makes \<open>ET.parse\<close> raise before the converter reads anything.
\<close>

datatype xml = Element (tag: string) (attrib: "string \<rightharpoonup> string")
  (elem_text: "string option") (children: "xml list")

text \<open>\<open>elem.iter()\<close>: the element and all its descendants, in document order.\<close>

fun iter :: "xml \<Rightarrow> xml list" where
  "iter (Element t a x cs) = Element t a x cs # concat (map iter cs)"

text \<open>
  \<open>elem.findall('.//name')\<close>: the descendants with that tag, the element itself excluded;
  \<open>elem.findall('./name')\<close>: the children with that tag; \<open>find\<close> is the first of them.
\<close>

definition findall_desc :: "string \<Rightarrow> xml \<Rightarrow> xml list" where
  "findall_desc name e = filter (\<lambda>c. tag c = name) (concat (map iter (children e)))"

definition findall_child :: "string \<Rightarrow> xml \<Rightarrow> xml list" where
  "findall_child name e = filter (\<lambda>c. tag c = name) (children e)"

definition find_first :: "xml list \<Rightarrow> xml option" where
  "find_first xs = (case xs of [] \<Rightarrow> None | x # _ \<Rightarrow> Some x)"

definition accelrys :: "string \<Rightarrow> string" where
  "accelrys name = ''{http://www.accelrys.com/xsd}'' @ name"

text \<open>
  \<open>a or b\<close> on the results of \<open>find\<close>: \<open>None\<close> is false, and an \<open>Element\<close> is false when
  it has no child elements (\<open>Element.__bool__\<close> is \<open>len(self) != 0\<close>; Python 3.12 and
  later warn about the test and keep its result).
\<close>

definition elem_or :: "xml option \<Rightarrow> xml option \<Rightarrow> xml option" where
  "elem_or a b = (case a of None \<Rightarrow> b | Some e \<Rightarrow> if children e \<noteq> [] then Some e else b)"

text \<open>\<open>elem.get(key, default)\<close>.\<close>

definition get_default :: "xml \<Rightarrow> string \<Rightarrow> string \<Rightarrow> string" where
  "get_default e key dflt = (case attrib e key of None \<Rightarrow> dflt | Some v \<Rightarrow> v)"

subsection \<open>The converter object\<close>

record 'f atom =
  atom_id :: string
  atom_name :: "string option"
  element :: string
  forcefield_type :: string
  charge :: 'f
  atom_x :: 'f
  atom_y :: 'f
  atom_z :: 'f
  atom_type :: "nat option"
  type_key :: "string option"

record bond =
  bond_id :: nat
  bond_type :: nat
  atom1 :: nat
  atom2 :: nat
  bond_order :: string
  bond_elements :: "string \<times> string \<times> string"

record 'f box =
  xlo :: 'f
  xhi :: 'f
  ylo :: 'f
  yhi :: 'f
  zlo :: 'f
  zhi :: 'f

text \<open>
  The fields of \<open>__init__\<close> but \<open>xsd_file\<close> (the tree read from it is an argument of
  \<open>parse_xsd\<close>). Nothing ever fills the angle and dihedral collections.
\<close>

record 'f converter =
  atoms :: "(nat \<times> 'f atom) list"
  bonds :: "bond list"
  angles :: "nat list"
  dihedrals :: "nat list"
  atom_types :: "(string \<times> nat) list"
  bond_types :: "((string \<times> string \<times> string) \<times> nat) list"
  angle_types :: "(string \<times> nat) list"
  dihedral_types :: "(string \<times> nat) list"
  atom_type_counter :: nat
  bond_type_counter :: nat
  angle_type_counter :: nat
  dihedral_type_counter :: nat
  box_bounds :: "'f box"
  xsd_id_to_lammps_idx :: "(int \<times> nat) list"

text \<open>\<open>__init__\<close>. The six box bounds start as the integer 0, which prints as \<open>0.0\<close> does.\<close>

definition init :: "'f pyops \<Rightarrow> 'f converter" where
  "init P =
     \<lparr>atoms = [], bonds = [], angles = [], dihedrals = [],
      atom_types = [], bond_types = [], angle_types = [], dihedral_types = [],
      atom_type_counter = 0, bond_type_counter = 0,
      angle_type_counter = 0, dihedral_type_counter = 0,
      box_bounds = \<lparr>xlo = f_zero P, xhi = f_zero P, ylo = f_zero P,
                    yhi = f_zero P, zlo = f_zero P, zhi = f_zero P\<rparr>,
      xsd_id_to_lammps_idx = []\<rparr>"

subsection \<open>Type interning\<close>

text \<open>
  The three lines both passes share:
  \<open>if key not in table: counter += 1; table[key] = counter\<close>.
\<close>

definition intern :: "'k \<Rightarrow> ('k \<times> nat) list \<times> nat \<Rightarrow> ('k \<times> nat) list \<times> nat" where
  "intern key tc =
     (case tc of (table, counter) \<Rightarrow>
        if key \<in> fst ` set table then (table, counter)
        else (AList.update key (counter + 1) table, counter + 1))"

subsection \<open>parse\_xsd: the atom pass\<close>

text \<open>\<open>float(atom_elem.get('Charge', 0.0))\<close>.\<close>

definition get_charge :: "'f pyops \<Rightarrow> xml \<Rightarrow> py_error + 'f" where
  "get_charge P atom_elem =
     (case attrib atom_elem ''Charge'' of
        None \<Rightarrow> Inr (f_zero P)
      | Some s \<Rightarrow> (case p_float P s of None \<Rightarrow> Inl ValueError | Some c \<Rightarrow> Inr c))"

text \<open>
  \<open>x, y, z = map(float, xyz_str.split(','))\<close> under a bare \<open>except\<close>: it succeeds when
  there are exactly three parts and \<open>float\<close> accepts each of them.
\<close>

definition parse_xyz :: "'f pyops \<Rightarrow> string \<Rightarrow> 'f \<times> 'f \<times> 'f" where
  "parse_xyz P xyz_str =
     (case map (p_float P) (split_on CHR '','' xyz_str) of
        [Some x, Some y, Some z] \<Rightarrow> (x, y, z)
      | _ \<Rightarrow> (f_zero P, f_zero P, f_zero P))"

text \<open>Lines 61 to 67: the element symbol.\<close>

definition components_elem :: "xml \<Rightarrow> xml option" where
  "components_elem atom_elem =
     elem_or (find_first (findall_desc ''Components'' atom_elem))
             (find_first (findall_child (accelrys ''Components'') atom_elem))"

definition truthy :: "string option \<Rightarrow> bool" where
  "truthy t = (case t of None \<Rightarrow> False | Some s \<Rightarrow> s \<noteq> [])"

definition get_element :: "xml \<Rightarrow> string" where
  "get_element atom_elem =
     (case components_elem atom_elem of
        Some c \<Rightarrow> (if truthy (elem_text c) then the (elem_text c) else ''X'')
      | None \<Rightarrow> get_default atom_elem ''Components'' ''X'')"

text \<open>Lines 83 to 86: the key an atom type is interned under.\<close>

definition atom_type_key :: "string \<Rightarrow> string \<Rightarrow> string" where
  "atom_type_key ff el = (if ff = ''unknown'' \<or> ff = [] then el else ff)"

text \<open>\<open>d[k][field] = v\<close> on the dictionary of atoms.\<close>

definition dict_modify ::
  "('k \<times> 'v) list \<Rightarrow> 'k \<Rightarrow> ('v \<Rightarrow> 'v) \<Rightarrow> py_error + ('k \<times> 'v) list" where
  "dict_modify d k f =
     (case map_of d k of None \<Rightarrow> Inl KeyError | Some v \<Rightarrow> Inr (AList.update k (f v) d))"

text \<open>One iteration of the loop over \<open>enumerate(atoms_list, 1)\<close>.\<close>

definition atom_step :: "'f pyops \<Rightarrow> nat \<Rightarrow> xml \<Rightarrow> 'f converter \<Rightarrow> py_error + 'f converter" where
  "atom_step P idx atom_elem self =
     (case attrib atom_elem ''ID'' of
        None \<Rightarrow> Inl TypeError
      | Some aid \<Rightarrow>
     (case p_int P aid of
        None \<Rightarrow> Inl ValueError
      | Some n \<Rightarrow>
     (case get_charge P atom_elem of
        Inl e \<Rightarrow> Inl e
      | Inr ch \<Rightarrow>
     (case parse_xyz P (get_default atom_elem ''XYZ'' ''0,0,0'') of (x, y, z) \<Rightarrow>
       let ff = get_default atom_elem ''ForcefieldType'' ''unknown'';
           el = get_element atom_elem;
           new_atom = \<lparr>atom_id = aid, atom_name = attrib atom_elem ''Name'', element = el,
                       forcefield_type = ff, charge = ch,
                       atom_x = x, atom_y = y, atom_z = z,
                       atom_type = None, type_key = None\<rparr>;
           key = atom_type_key ff el;
           tc = intern key (atom_types self, atom_type_counter self);
           self1 = self\<lparr>xsd_id_to_lammps_idx := AList.update n idx (xsd_id_to_lammps_idx self),
                        atoms := AList.update idx new_atom (atoms self),
                        atom_types := fst tc, atom_type_counter := snd tc\<rparr>
       in
     (case dict_get (atom_types self1) key of
        Inl e \<Rightarrow> Inl e
      | Inr t \<Rightarrow>
     (case dict_modify (atoms self1) idx (\<lambda>a. a\<lparr>atom_type := Some t\<rparr>) of
        Inl e \<Rightarrow> Inl e
      | Inr atoms2 \<Rightarrow>
     (case dict_modify atoms2 idx (\<lambda>a. a\<lparr>type_key := Some key\<rparr>) of
        Inl e \<Rightarrow> Inl e
      | Inr atoms3 \<Rightarrow> Inr (self1\<lparr>atoms := atoms3\<rparr>))))))))"

fun atom_loop :: "'f pyops \<Rightarrow> nat \<Rightarrow> xml list \<Rightarrow> 'f converter \<Rightarrow> py_error + 'f converter" where
  "atom_loop P idx [] self = Inr self"
| "atom_loop P idx (atom_elem # rest) self =
     (case atom_step P idx atom_elem self of
        Inl e \<Rightarrow> Inl e
      | Inr self' \<Rightarrow> atom_loop P (Suc idx) rest self')"

text \<open>Lines 39 to 41 and 114 to 116: the plain tag first, the namespaced one when none is found.\<close>

definition find_elements :: "string \<Rightarrow> xml \<Rightarrow> xml list" where
  "find_elements name root =
     (let found = findall_desc name root
      in if found = [] then findall_desc (accelrys name) root else found)"

subsection \<open>\_extract\_bonds\_from\_bond\_elements\<close>

text \<open>
  The loop state: the object, the local \<open>bond_id\<close> and the local set \<open>processed_bonds\<close>.
  One iteration: \<open>continue\<close> and the handler of \<open>(ValueError, IndexError)\<close> leave the state as
  it is; a \<open>KeyError\<close> would not be caught.
\<close>

type_synonym 'f bond_state = "'f converter \<times> nat \<times> (nat \<times> nat) set"

definition bond_step :: "'f pyops \<Rightarrow> xml \<Rightarrow> 'f bond_state \<Rightarrow> py_error + 'f bond_state" where
  "bond_step P bond_elem st =
     (case st of (self, bid, processed_bonds) \<Rightarrow>
       let connects = get_default bond_elem ''Connects'' [];
           order = get_default bond_elem ''Type'' ''Single''
       in
       if connects = [] then Inr st
       else
     (case those (map (\<lambda>p. p_int P (strip p)) (split_on CHR '','' connects)) of
        None \<Rightarrow> Inr st
      | Some parts \<Rightarrow>
     (case parts of
        [atom1_xsd_id, atom2_xsd_id] \<Rightarrow>
     (case (map_of (xsd_id_to_lammps_idx self) atom1_xsd_id,
            map_of (xsd_id_to_lammps_idx self) atom2_xsd_id) of
        (Some atom1_idx, Some atom2_idx) \<Rightarrow>
          let bond_tuple = sorted_pair atom1_idx atom2_idx in
          if bond_tuple \<in> processed_bonds then Inr st
          else
     (case dict_get (atoms self) atom1_idx of
        Inl e \<Rightarrow> Inl e
      | Inr a1 \<Rightarrow>
     (case dict_get (atoms self) atom2_idx of
        Inl e \<Rightarrow> Inl e
      | Inr a2 \<Rightarrow>
          let elem_pair = sorted_pair (element a1) (element a2);
              bond_type_key = (fst elem_pair, snd elem_pair, order);
              tc = intern bond_type_key (bond_types self, bond_type_counter self)
          in
     (case dict_get (fst tc) bond_type_key of
        Inl e \<Rightarrow> Inl e
      | Inr t \<Rightarrow>
          Inr (self\<lparr>bond_types := fst tc, bond_type_counter := snd tc,
                     bonds := bonds self @
                       [\<lparr>bond_id = bid, bond_type = t,
                         atom1 = fst bond_tuple, atom2 = snd bond_tuple,
                         bond_order = order, bond_elements = bond_type_key\<rparr>]\<rparr>,
               bid + 1, insert bond_tuple processed_bonds))))
      | _ \<Rightarrow> Inr st)
      | _ \<Rightarrow> Inr st)))"

fun bond_loop :: "'f pyops \<Rightarrow> xml list \<Rightarrow> 'f bond_state \<Rightarrow> py_error + 'f bond_state" where
  "bond_loop P [] st = Inr st"
| "bond_loop P (bond_elem # rest) st =
     (case bond_step P bond_elem st of
        Inl e \<Rightarrow> Inl e
      | Inr st' \<Rightarrow> bond_loop P rest st')"

definition extract_bonds_from_bond_elements ::
  "'f pyops \<Rightarrow> xml \<Rightarrow> 'f converter \<Rightarrow> py_error + 'f converter" where
  "extract_bonds_from_bond_elements P root self =
     (case bond_loop P (find_elements ''Bond'' root) (self, 1, {}) of
        Inl e \<Rightarrow> Inl e
      | Inr st \<Rightarrow> Inr (fst st))"

subsection \<open>\_calculate\_box\_bounds\<close>

definition calculate_box_bounds :: "'f pyops \<Rightarrow> 'f converter \<Rightarrow> py_error + 'f converter" where
  "calculate_box_bounds P self =
     (if atoms self = [] then Inr self
      else
        let x_coords = map (\<lambda>kv. atom_x (snd kv)) (atoms self);
            y_coords = map (\<lambda>kv. atom_y (snd kv)) (atoms self);
            z_coords = map (\<lambda>kv. atom_z (snd kv)) (atoms self);
            padding = f_ten P
        in
     (case py_min P x_coords of Inl e \<Rightarrow> Inl e | Inr x0 \<Rightarrow>
     (case py_max P x_coords of Inl e \<Rightarrow> Inl e | Inr x1 \<Rightarrow>
     (case py_min P y_coords of Inl e \<Rightarrow> Inl e | Inr y0 \<Rightarrow>
     (case py_max P y_coords of Inl e \<Rightarrow> Inl e | Inr y1 \<Rightarrow>
     (case py_min P z_coords of Inl e \<Rightarrow> Inl e | Inr z0 \<Rightarrow>
     (case py_max P z_coords of Inl e \<Rightarrow> Inl e | Inr z1 \<Rightarrow>
        Inr (self\<lparr>box_bounds :=
               \<lparr>xlo = f_sub P x0 padding, xhi = f_add P x1 padding,
                ylo = f_sub P y0 padding, yhi = f_add P y1 padding,
                zlo = f_sub P z0 padding, zhi = f_add P z1 padding\<rparr>\<rparr>))))))))"

subsection \<open>parse\_xsd\<close>

text \<open>The result is the object after the call and the returned \<open>len(self.atoms)\<close>.\<close>

definition parse_xsd :: "'f pyops \<Rightarrow> xml \<Rightarrow> 'f converter \<Rightarrow> py_error + ('f converter \<times> nat)" where
  "parse_xsd P root self =
     (case atom_loop P 1 (find_elements ''Atom3d'' root) self of
        Inl e \<Rightarrow> Inl e
      | Inr self1 \<Rightarrow>
     (case extract_bonds_from_bond_elements P root self1 of
        Inl e \<Rightarrow> Inl e
      | Inr self2 \<Rightarrow>
     (case calculate_box_bounds P self2 of
        Inl e \<Rightarrow> Inl e
      | Inr self3 \<Rightarrow> Inr (self3, length (atoms self3)))))"

subsection \<open>write\_lammps\_data\<close>

text \<open>
  The writer runs on a pair: the object and the strings written to the file so far. Every
  statement of the method is a step on that pair; a step that reads a missing dictionary
  key stops the method with \<open>KeyError\<close>.
\<close>

type_synonym 'f wstate = "'f converter \<times> string list"

fun run_steps :: "('s \<Rightarrow> py_error + 's) list \<Rightarrow> 's \<Rightarrow> py_error + 's" where
  "run_steps [] st = Inr st"
| "run_steps (f # fs) st = (case f st of Inl e \<Rightarrow> Inl e | Inr st' \<Rightarrow> run_steps fs st')"

text \<open>\<open>f.write(txt)\<close>, the text computed from the object.\<close>

definition f_write :: "('f converter \<Rightarrow> py_error + string) \<Rightarrow> 'f wstate \<Rightarrow> py_error + 'f wstate" where
  "f_write txt st =
     (case txt (fst st) of Inl e \<Rightarrow> Inl e | Inr s \<Rightarrow> Inr (fst st, snd st @ [s]))"

text \<open>\<open>for v in iterable: body\<close>, the iterable evaluated once when the loop starts.\<close>

definition for_each ::
  "('f converter \<Rightarrow> 'a list) \<Rightarrow> ('a \<Rightarrow> 'f wstate \<Rightarrow> py_error + 'f wstate) \<Rightarrow>
   'f wstate \<Rightarrow> py_error + 'f wstate" where
  "for_each iterable body st = run_steps (map body (iterable (fst st))) st"

text \<open>\<open>if cond: body\<close>.\<close>

definition when_true ::
  "('f converter \<Rightarrow> bool) \<Rightarrow> ('f wstate \<Rightarrow> py_error + 'f wstate) \<Rightarrow>
   'f wstate \<Rightarrow> py_error + 'f wstate" where
  "when_true cond body st = (if cond (fst st) then body st else Inr st)"

text \<open>
  The table of atomic masses. Each value is kept as the text \<open>{mass:.3f}\<close> prints for it
  (\<open>35.45\<close> as \<open>35.450\<close>); the default \<open>12.0\<close> prints as \<open>12.000\<close>.
\<close>

definition atomic_masses :: "(string \<times> string) list" where
  "atomic_masses =
     [(''H'', ''1.008''), (''C'', ''12.011''), (''N'', ''14.007''), (''O'', ''15.999''),
      (''S'', ''32.065''), (''P'', ''30.974''), (''Cl'', ''35.450''), (''F'', ''18.998''),
      (''Br'', ''79.904''), (''I'', ''126.904''), (''Na'', ''22.990''), (''K'', ''39.098''),
      (''Ca'', ''40.078''), (''Mg'', ''24.305''), (''Al'', ''26.982''), (''Si'', ''28.085'')]"

definition is_letter :: "char \<Rightarrow> bool" where
  "is_letter c = (let n = (of_char c :: nat) in (65 \<le> n \<and> n \<le> 90) \<or> (97 \<le> n \<and> n \<le> 122))"

definition to_upper :: "char \<Rightarrow> char" where
  "to_upper c = (let n = (of_char c :: nat) in if 97 \<le> n \<and> n \<le> 122 then char_of (n - 32) else c)"

definition to_lower :: "char \<Rightarrow> char" where
  "to_lower c = (let n = (of_char c :: nat) in if 65 \<le> n \<and> n \<le> 90 then char_of (n + 32) else c)"

definition capitalize :: "string \<Rightarrow> string" where
  "capitalize s = (case s of [] \<Rightarrow> [] | c # cs \<Rightarrow> to_upper c # map to_lower cs)"

text \<open>
  Lines 244 to 251. \<open>element\<close> is not empty when \<open>element[0]\<close> is read, so \<open>take 1\<close> is
  that character.
\<close>

definition mass_text :: "string \<Rightarrow> string" where
  "mass_text ff_type =
     (let letters = filter is_letter ff_type;
          el = (if letters = [] then ''X'' else letters);
          elem_key = (if length el = 1 then map to_upper (take 1 el) else capitalize (take 2 el));
          elem_key' = (if elem_key \<notin> fst ` set atomic_masses then map to_upper (take 1 el)
                       else elem_key)
      in case map_of atomic_masses elem_key' of None \<Rightarrow> ''12.000'' | Some m \<Rightarrow> m)"

text \<open>\<open>sorted(d.keys(), key=lambda x: d[x])\<close>: every key is ordered by the value stored with it.\<close>

definition keys_by_value :: "('k \<times> nat) list \<Rightarrow> 'k list" where
  "keys_by_value d = map fst (sort_key snd d)"

definition mass_row :: "string \<Rightarrow> 'f converter \<Rightarrow> py_error + string" where
  "mass_row ff_type self =
     (case dict_get (atom_types self) ff_type of
        Inl e \<Rightarrow> Inl e
      | Inr atom_type_id \<Rightarrow>
          Inr (show_nat atom_type_id @ '' '' @ mass_text ff_type @ ''  # '' @ ff_type @ ''\<newline>''))"

definition bond_type_row :: "(string \<times> string \<times> string) \<times> nat \<Rightarrow> string" where
  "bond_type_row item =
     (case item of ((elem1, elem2, order), bond_num) \<Rightarrow>
        ''#   Type '' @ show_nat bond_num @ '': '' @ elem1 @ ''-'' @ elem2 @
        '' ('' @ order @ '')\<newline>'')"

text \<open>An f-string prints \<open>None\<close> as the word.\<close>

definition show_type :: "nat option \<Rightarrow> string" where
  "show_type t = (case t of None \<Rightarrow> ''None'' | Some n \<Rightarrow> show_nat n)"

definition atom_text :: "'f pyops \<Rightarrow> nat \<Rightarrow> 'f atom \<Rightarrow> string" where
  "atom_text P atom_idx a =
     show_nat atom_idx @ '' 1 '' @ show_type (atom_type a) @ '' '' @
     f_fmt P 6 (charge a) @ '' '' @ f_fmt P 8 (atom_x a) @ '' '' @
     f_fmt P 8 (atom_y a) @ '' '' @ f_fmt P 8 (atom_z a) @ ''\<newline>''"

definition atom_row :: "'f pyops \<Rightarrow> nat \<Rightarrow> 'f converter \<Rightarrow> py_error + string" where
  "atom_row P atom_idx self =
     (case dict_get (atoms self) atom_idx of
        Inl e \<Rightarrow> Inl e
      | Inr a \<Rightarrow> Inr (atom_text P atom_idx a))"

definition bond_row :: "bond \<Rightarrow> string" where
  "bond_row b =
     show_nat (bond_id b) @ '' '' @ show_nat (bond_type b) @ '' '' @
     show_nat (atom1 b) @ '' '' @ show_nat (atom2 b) @ ''\<newline>''"

definition box_line :: "'f pyops \<Rightarrow> 'f \<Rightarrow> 'f \<Rightarrow> string \<Rightarrow> string" where
  "box_line P lo hi names = f_fmt P 6 lo @ '' '' @ f_fmt P 6 hi @ names"

text \<open>Lines 205 to 232: header, counts, types, box bounds and the title of the masses.\<close>

definition write_header :: "'f pyops \<Rightarrow> 'f wstate \<Rightarrow> py_error + 'f wstate" where
  "write_header P =
     run_steps
      [f_write (\<lambda>self. Inr ''LAMMPS data file - converted from XSD\<newline>''),
       f_write (\<lambda>self. Inr ''\<newline>''),
       f_write (\<lambda>self. Inr (show_nat (length (atoms self)) @ '' atoms\<newline>'')),
       f_write (\<lambda>self. Inr (show_nat (length (bonds self)) @ '' bonds\<newline>'')),
       f_write (\<lambda>self. Inr (show_nat (length (angles self)) @ '' angles\<newline>'')),
       f_write (\<lambda>self. Inr (show_nat (length (dihedrals self)) @ '' dihedrals\<newline>'')),
       f_write (\<lambda>self. Inr ''0 impropers\<newline>''),
       f_write (\<lambda>self. Inr ''\<newline>''),
       f_write (\<lambda>self. Inr (show_nat (length (atom_types self)) @ '' atom types\<newline>'')),
       f_write (\<lambda>self. Inr (show_nat (length (bond_types self)) @ '' bond types\<newline>'')),
       f_write (\<lambda>self. Inr (show_nat (length (angle_types self)) @ '' angle types\<newline>'')),
       f_write (\<lambda>self. Inr (show_nat (length (dihedral_types self)) @ '' dihedral types\<newline>'')),
       f_write (\<lambda>self. Inr ''\<newline>''),
       f_write (\<lambda>self. Inr (box_line P (xlo (box_bounds self)) (xhi (box_bounds self))
                                '' xlo xhi\<newline>'')),
       f_write (\<lambda>self. Inr (box_line P (ylo (box_bounds self)) (yhi (box_bounds self))
                                '' ylo yhi\<newline>'')),
       f_write (\<lambda>self. Inr (box_line P (zlo (box_bounds self)) (zhi (box_bounds self))
                                '' zlo zhi\<newline>'')),
       f_write (\<lambda>self. Inr ''\<newline>''),
       f_write (\<lambda>self. Inr ''Masses\<newline>''),
       f_write (\<lambda>self. Inr ''\<newline>'')]"

text \<open>Lines 241 to 254.\<close>

definition write_masses :: "'f wstate \<Rightarrow> py_error + 'f wstate" where
  "write_masses =
     run_steps
      [for_each (\<lambda>self. keys_by_value (atom_types self)) (\<lambda>ff_type. f_write (mass_row ff_type)),
       f_write (\<lambda>self. Inr ''\<newline>'')]"

text \<open>Lines 257 to 262.\<close>

definition write_bond_types :: "'f wstate \<Rightarrow> py_error + 'f wstate" where
  "write_bond_types =
     when_true (\<lambda>self. bond_types self \<noteq> [])
      (run_steps
        [f_write (\<lambda>self. Inr ''# Bond Types Reference:\<newline>''),
         for_each (\<lambda>self. sort_key snd (bond_types self))
           (\<lambda>item. f_write (\<lambda>self. Inr (bond_type_row item))),
         f_write (\<lambda>self. Inr ''\<newline>'')])"

text \<open>Lines 265 to 273.\<close>

definition write_atoms :: "'f pyops \<Rightarrow> 'f wstate \<Rightarrow> py_error + 'f wstate" where
  "write_atoms P =
     run_steps
      [f_write (\<lambda>self. Inr ''Atoms\<newline>''),
       f_write (\<lambda>self. Inr ''\<newline>''),
       for_each (\<lambda>self. sort (map fst (atoms self))) (\<lambda>atom_idx. f_write (atom_row P atom_idx)),
       f_write (\<lambda>self. Inr ''\<newline>'')]"

text \<open>Lines 276 to 281.\<close>

definition write_bonds :: "'f wstate \<Rightarrow> py_error + 'f wstate" where
  "write_bonds =
     when_true (\<lambda>self. bonds self \<noteq> [])
      (run_steps
        [f_write (\<lambda>self. Inr ''Bonds\<newline>''),
         f_write (\<lambda>self. Inr ''\<newline>''),
         for_each bonds (\<lambda>b. f_write (\<lambda>self. Inr (bond_row b))),
         f_write (\<lambda>self. Inr ''\<newline>'')])"

definition write_lammps_data :: "'f pyops \<Rightarrow> 'f wstate \<Rightarrow> py_error + 'f wstate" where
  "write_lammps_data P =
     run_steps [write_header P, write_masses, write_bond_types, write_atoms P, write_bonds]"

subsection \<open>An instance of the builtins\<close>

text \<open>
  The floats with whole values, as integers: \<open>int\<close> and \<open>float\<close> read plain decimal
  numerals with an optional minus sign, and \<open>format(v, '.nf')\<close> prints \<open>n\<close> zeros after the
  point. The theorems below hold for every instance; this one evaluates them on inputs.
\<close>

definition digit_val :: "char \<Rightarrow> nat option" where
  "digit_val c = (let n = (of_char c :: nat) in if 48 \<le> n \<and> n \<le> 57 then Some (n - 48) else None)"

fun dec_digits :: "nat \<Rightarrow> string \<Rightarrow> nat option" where
  "dec_digits acc [] = Some acc"
| "dec_digits acc (c # cs) =
     (case digit_val c of None \<Rightarrow> None | Some d \<Rightarrow> dec_digits (10 * acc + d) cs)"

definition dec_int :: "string \<Rightarrow> int option" where
  "dec_int s =
     (case s of
        [] \<Rightarrow> None
      | c # cs \<Rightarrow>
          if c = CHR ''-'' then (if cs = [] then None else map_option (\<lambda>n. - int n) (dec_digits 0 cs))
          else map_option int (dec_digits 0 s))"

definition show_int :: "int \<Rightarrow> string" where
  "show_int i = (if i < 0 then ''-'' @ show_nat (nat (- i)) else show_nat (nat i))"

definition whole_floats :: "int pyops" where
  "whole_floats =
     \<lparr>p_int = dec_int, p_float = dec_int, f_zero = 0, f_ten = 10,
      f_lt = (\<lambda>a b. a < b), f_add = (\<lambda>a b. a + b), f_sub = (\<lambda>a b. a - b),
      f_fmt = (\<lambda>n v. show_int v @ ''.'' @ replicate n CHR ''0'')\<rparr>"

text \<open>Documents the theorems are evaluated on.\<close>

definition atom3d :: "(string \<times> string) list \<Rightarrow> xml list \<Rightarrow> xml" where
  "atom3d attrs cs = Element ''Atom3d'' (map_of attrs) None cs"

definition bond_el :: "(string \<times> string) list \<Rightarrow> xml" where
  "bond_el attrs = Element ''Bond'' (map_of attrs) None []"

definition document :: "xml list \<Rightarrow> xml" where
  "document cs = Element ''XSD'' Map.empty None cs"

text \<open>Two atoms with source IDs 5 and 9, elements C and H, and one single bond between them.\<close>

definition doc_CH :: xml where
  "doc_CH = document
     [atom3d [(''ID'', ''5''), (''Components'', ''C'')] [],
      atom3d [(''ID'', ''9''), (''Components'', ''H'')] [],
      bond_el [(''Connects'', ''5,9''), (''Type'', ''Single'')]]"

text \<open>
  The same two atoms and bond with the element symbols given as the text of \<open>Components\<close>
  children: in a document without namespace, and in a document whose tags all carry the
  declared namespace.
\<close>

definition doc_CH_children :: xml where
  "doc_CH_children = document
     [atom3d [(''ID'', ''5'')] [Element ''Components'' Map.empty (Some ''C'') []],
      atom3d [(''ID'', ''9'')] [Element ''Components'' Map.empty (Some ''H'') []],
      bond_el [(''Connects'', ''5,9''), (''Type'', ''Single'')]]"

definition doc_CH_namespaced :: xml where
  "doc_CH_namespaced = Element (accelrys ''XSD'') Map.empty None
     [Element (accelrys ''Atom3d'') (map_of [(''ID'', ''5'')]) None
        [Element (accelrys ''Components'') Map.empty (Some ''C'') []],
      Element (accelrys ''Atom3d'') (map_of [(''ID'', ''9'')]) None
        [Element (accelrys ''Components'') Map.empty (Some ''H'') []],
      Element (accelrys ''Bond'') (map_of [(''Connects'', ''5,9''), (''Type'', ''Single'')]) None []]"

text \<open>An atom with source ID 5, then an atom without an ID attribute.\<close>

definition doc_no_id :: xml where
  "doc_no_id = document
     [atom3d [(''ID'', ''5''), (''Components'', ''C'')] [],
      atom3d [(''Components'', ''H'')] []]"

text \<open>
  Three atoms with source IDs 7, 3 and 12 (a carbon with a force-field label, two hydrogens,
  the second with coordinates that do not parse) and four bonds: 7-3, the same bond with its
  ends swapped, 12-7 without a bond order, and a bond to the unknown source ID 99.
\<close>

definition doc_CH2 :: xml where
  "doc_CH2 = document
     [atom3d [(''ID'', ''7''), (''Components'', ''C''), (''ForcefieldType'', ''c3''),
              (''XYZ'', ''1,2,3''), (''Charge'', ''0'')] [],
      atom3d [(''ID'', ''3''), (''Components'', ''H''), (''XYZ'', ''4,0,6'')] [],
      atom3d [(''ID'', ''12''), (''Components'', ''H''), (''ForcefieldType'', ''unknown''),
              (''XYZ'', ''bad,data'')] [],
      bond_el [(''Connects'', ''7,3''), (''Type'', ''Single'')],
      bond_el [(''Connects'', ''3,7''), (''Type'', ''Single'')],
      bond_el [(''Connects'', ''12, 7'')],
      bond_el [(''Connects'', ''7,99''), (''Type'', ''Double'')]]"


text \<open>
  Atom elements of a document with the namespace declared: a \<open>Components\<close> child without
  text beside a \<open>Components\<close> attribute, and the same with the text \<open>N\<close>. Last, an atom
  element of a document without namespace whose \<open>Components\<close> child holds the text \<open>C\<close>.
\<close>

definition atom_empty_child :: xml where
  "atom_empty_child =
     Element (accelrys ''Atom3d'') (map_of [(''ID'', ''5''), (''Components'', ''C'')]) None
       [Element (accelrys ''Components'') Map.empty None []]"

definition atom_child_N :: xml where
  "atom_child_N =
     Element (accelrys ''Atom3d'') (map_of [(''ID'', ''5''), (''Components'', ''C'')]) None
       [Element (accelrys ''Components'') Map.empty (Some ''N'') []]"

definition atom_plain_child :: xml where
  "atom_plain_child =
     Element ''Atom3d'' (map_of [(''ID'', ''5'')]) None
       [Element ''Components'' Map.empty (Some ''C'') []]"

section \<open>Notions of the statements and invariants of the passes\<close>

text \<open>The charge an atom element gets when \<open>float\<close> accepts its \<open>Charge\<close> attribute or it has none.\<close>

definition charge_of :: "'f pyops \<Rightarrow> xml \<Rightarrow> 'f" where
  "charge_of P e = (case get_charge P e of Inl _ \<Rightarrow> f_zero P | Inr ch \<Rightarrow> ch)"

text \<open>A well-formed atom element: it has an \<open>ID\<close> that \<open>int\<close> accepts, and \<open>float\<close> accepts its
  \<open>Charge\<close> if it has one. These are the two conversions of the atom pass that can raise.\<close>

definition atom_ok :: "'f pyops \<Rightarrow> xml \<Rightarrow> bool" where
  "atom_ok P e =
     ((case attrib e ''ID'' of None \<Rightarrow> False | Some aid \<Rightarrow> p_int P aid \<noteq> None) \<and>
      (case attrib e ''Charge'' of None \<Rightarrow> True | Some s \<Rightarrow> p_float P s \<noteq> None))"

text \<open>The distinct elements of a list in order of first appearance.\<close>

definition first_seen :: "'a list \<Rightarrow> 'a list" where
  "first_seen xs = rev (remdups (rev xs))"

text \<open>The interning table that numbers the given distinct keys \<open>1, 2, ...\<close>, with its counter.\<close>

definition table_of :: "'k list \<Rightarrow> ('k \<times> nat) list \<times> nat" where
  "table_of ks = (zip ks [1..<Suc (length ks)], length ks)"

text \<open>The dictionary the atom pass leaves for a well-formed atom element, given its type.\<close>

definition final_atom :: "'f pyops \<Rightarrow> xml \<Rightarrow> nat option \<Rightarrow> 'f atom" where
  "final_atom P e t =
     (case parse_xyz P (get_default e ''XYZ'' ''0,0,0'') of (x, y, z) \<Rightarrow>
        \<lparr>atom_id = the (attrib e ''ID''), atom_name = attrib e ''Name'',
         element = get_element e,
         forcefield_type = get_default e ''ForcefieldType'' ''unknown'',
         charge = charge_of P e, atom_x = x, atom_y = y, atom_z = z, atom_type = t,
         type_key = Some (atom_type_key (get_default e ''ForcefieldType'' ''unknown'')
                            (get_element e))\<rparr>)"

text \<open>The type key of an atom element.\<close>

definition elem_key :: "xml \<Rightarrow> string" where
  "elem_key e = atom_type_key (get_default e ''ForcefieldType'' ''unknown'') (get_element e)"

text \<open>The source IDs the bond pass reads from a \<open>Connects\<close> attribute (line 130); \<open>None\<close> when the
  attribute is absent or empty or \<open>int\<close> rejects a part.\<close>

definition connects_ids :: "'f pyops \<Rightarrow> xml \<Rightarrow> int list option" where
  "connects_ids P b =
     (let connects = get_default b ''Connects'' [] in
      if connects = [] then None
      else those (map (\<lambda>p. p_int P (strip p)) (split_on CHR '','' connects)))"

text \<open>Every dense index in the map of source IDs is a key of \<open>atoms\<close>.\<close>

definition idx_inv :: "'f converter \<Rightarrow> bool" where
  "idx_inv self =
     (\<forall>k v. map_of (xsd_id_to_lammps_idx self) k = Some v \<longrightarrow> map_of (atoms self) v \<noteq> None)"

text \<open>The type key of a bond between two atoms.\<close>

definition bond_key :: "'f atom \<Rightarrow> 'f atom \<Rightarrow> string \<Rightarrow> string \<times> string \<times> string" where
  "bond_key a1 a2 order = (min (element a1) (element a2), max (element a1) (element a2), order)"

text \<open>The invariant of the loop over the Bond elements.\<close>

definition bond_inv :: "'f bond_state \<Rightarrow> bool" where
  "bond_inv st =
     (case st of (self, bid, processed) \<Rightarrow>
        map bond_id (bonds self) = [1..<bid] \<and> 0 < bid \<and>
        processed = (\<lambda>b. (atom1 b, atom2 b)) ` set (bonds self) \<and>
        distinct (map (\<lambda>b. (atom1 b, atom2 b)) (bonds self)) \<and>
        (bond_types self, bond_type_counter self) =
          table_of (first_seen (map bond_elements (bonds self))) \<and>
        (\<forall>b\<in>set (bonds self).
           atom1 b \<le> atom2 b \<and>
           map_of (bond_types self) (bond_elements b) = Some (bond_type b) \<and>
           (\<exists>a1 a2. map_of (atoms self) (atom1 b) = Some a1 \<and>
                    map_of (atoms self) (atom2 b) = Some a2 \<and>
                    bond_elements b = bond_key a1 a2 (bond_order b))))"

text \<open>What the bond pass may change of the object.\<close>

definition bond_frame :: "'f converter \<Rightarrow> 'f converter \<Rightarrow> bool" where
  "bond_frame self self' =
     (\<exists>bs bt bc. self' = self\<lparr>bonds := bs, bond_types := bt, bond_type_counter := bc\<rparr>)"

text \<open>A step of the writer that always succeeds, keeps the object and appends the given lines.\<close>

definition emits :: "('f wstate \<Rightarrow> py_error + 'f wstate) \<Rightarrow> ('f converter \<Rightarrow> string list) \<Rightarrow> bool" where
  "emits step lines = (\<forall>self out. step (self, out) = Inr (self, out @ lines self))"

text \<open>The first thirteen lines of the file, and the three lines of the box.\<close>

definition header_lines :: "'f pyops \<Rightarrow> 'f converter \<Rightarrow> string list" where
  "header_lines P self =
      [''LAMMPS data file - converted from XSD\<newline>'',
       ''\<newline>'',
       show_nat (length (atoms self)) @ '' atoms\<newline>'',
       show_nat (length (bonds self)) @ '' bonds\<newline>'',
       show_nat (length (angles self)) @ '' angles\<newline>'',
       show_nat (length (dihedrals self)) @ '' dihedrals\<newline>'',
       ''0 impropers\<newline>'',
       ''\<newline>'',
       show_nat (length (atom_types self)) @ '' atom types\<newline>'',
       show_nat (length (bond_types self)) @ '' bond types\<newline>'',
       show_nat (length (angle_types self)) @ '' angle types\<newline>'',
       show_nat (length (dihedral_types self)) @ '' dihedral types\<newline>'',
       ''\<newline>'']"

definition box_lines :: "'f pyops \<Rightarrow> 'f converter \<Rightarrow> string list" where
  "box_lines P self =
      [box_line P (xlo (box_bounds self)) (xhi (box_bounds self)) '' xlo xhi\<newline>'',
       box_line P (ylo (box_bounds self)) (yhi (box_bounds self)) '' ylo yhi\<newline>'',
       box_line P (zlo (box_bounds self)) (zhi (box_bounds self)) '' zlo zhi\<newline>'']"



text \<open>
  The resolution of the element symbol in the words of the specification, to compare
  \<open>get_element\<close> with: the text of a \<open>Components\<close> child when there is one and its text is
  not empty, else the \<open>Components\<close> attribute, else \<open>X\<close>.
\<close>

definition claimed_element :: "xml \<Rightarrow> string" where
  "claimed_element atom_elem =
     (let from_attribute = (case attrib atom_elem ''Components'' of None \<Rightarrow> ''X'' | Some v \<Rightarrow> v)
      in case find_first (filter (\<lambda>c. tag c = ''Components'' \<or> tag c = accelrys ''Components'')
                            (children atom_elem)) of
           None \<Rightarrow> from_attribute
         | Some c \<Rightarrow> (case elem_text c of
                        None \<Rightarrow> from_attribute
                      | Some t \<Rightarrow> if t \<noteq> [] then t else from_attribute))"


section \<open>Lemmas\<close>

lemma update_append: "k \<notin> fst ` set al \<Longrightarrow> AList.update k v al = al @ [(k, v)]"
  by (induction al) auto

lemma dict_get_eq: "dict_get d k = Inr v \<longleftrightarrow> map_of d k = Some v"
  by (simp add: dict_get_def split: option.splits)

lemma intern_lookup:
  "map_of (fst (intern k (t, c))) k = Some (case map_of t k of Some v \<Rightarrow> v | None \<Rightarrow> c + 1)"
proof (cases "k \<in> fst ` set t")
  case True
  then obtain v where "map_of t k = Some v"
    by (meson map_of_eq_None_iff not_Some_eq)
  with True show ?thesis by (simp add: intern_def)
next
  case False
  then have "map_of t k = None" by (simp add: map_of_eq_None_iff)
  with False show ?thesis by (simp add: intern_def update_conv')
qed

lemma intern_stable:
  "map_of t k' = Some v \<Longrightarrow> map_of (fst (intern k (t, c))) k' = Some v"
  by (auto simp: intern_def update_conv' map_of_eq_None_iff[symmetric])

lemma atom_step_Inr:
  assumes "atom_ok P e"
  shows "atom_step P i e s =
     Inr (s\<lparr>xsd_id_to_lammps_idx := AList.update (the (p_int P (the (attrib e ''ID'')))) i (xsd_id_to_lammps_idx s),
            atoms := AList.update i
               (final_atom P e (map_of (fst (intern (elem_key e) (atom_types s, atom_type_counter s))) (elem_key e)))
               (atoms s),
            atom_types := fst (intern (elem_key e) (atom_types s, atom_type_counter s)),
            atom_type_counter := snd (intern (elem_key e) (atom_types s, atom_type_counter s))\<rparr>)"
proof -
  obtain t where t: "map_of (fst (intern (elem_key e) (atom_types s, atom_type_counter s))) (elem_key e) = Some t"
    using intern_lookup[of "elem_key e" "atom_types s" "atom_type_counter s"] by blast
  from assms obtain aid n where a: "attrib e ''ID'' = Some aid" "p_int P aid = Some n"
    by (auto simp: atom_ok_def split: option.splits)
  from assms obtain ch where c: "get_charge P e = Inr ch"
    by (auto simp: atom_ok_def get_charge_def split: option.splits)
  show ?thesis
    using a c t
    by (simp add: atom_step_def Let_def dict_get_def dict_modify_def update_conv' final_atom_def
        elem_key_def charge_of_def split: prod.splits)
qed

lemma atom_step_Inl:
  assumes "\<not> atom_ok P e"
  shows "atom_step P i e s = Inl TypeError \<or> atom_step P i e s = Inl ValueError"
  using assms
  by (auto simp: atom_ok_def atom_step_def get_charge_def split: option.splits)

lemma atom_step_Inr_iff: "(\<exists>s'. atom_step P i e s = Inr s') \<longleftrightarrow> atom_ok P e"
proof (cases "atom_ok P e")
  case True
  then show ?thesis by (simp add: atom_step_Inr)
next
  case False
  then show ?thesis using atom_step_Inl[OF False, of i s] by auto
qed

lemma atom_loop_Inr_iff:
  "(\<exists>s'. atom_loop P i es s = Inr s') \<longleftrightarrow> (\<forall>e\<in>set es. atom_ok P e)"
proof (induction es arbitrary: i s)
  case Nil
  then show ?case by simp
next
  case (Cons e es)
  show ?case
  proof (cases "atom_ok P e")
    case True
    then show ?thesis using Cons.IH by (simp add: atom_step_Inr)
  next
    case False
    then show ?thesis using atom_step_Inl[OF False, of i s] by auto
  qed
qed

lemma atom_loop_Inl:
  "atom_loop P i es s = Inl err \<Longrightarrow> err = TypeError \<or> err = ValueError"
proof (induction es arbitrary: i s)
  case Nil
  then show ?case by simp
next
  case (Cons e es)
  show ?case
  proof (cases "atom_ok P e")
    case True
    then show ?thesis using Cons by (simp add: atom_step_Inr)
  next
    case False
    then show ?thesis using atom_step_Inl[OF False, of i s] Cons.prems by auto
  qed
qed

lemma fold_intern_stable:
  "map_of t k = Some v \<Longrightarrow> map_of (fst (fold intern ks (t, c))) k = Some v"
proof (induction ks arbitrary: t c)
  case Nil
  then show ?case by simp
next
  case (Cons a ks)
  have "map_of (fst (intern a (t, c))) k = Some v"
    using Cons.prems by (rule intern_stable)
  then show ?case
    using Cons.IH[of "fst (intern a (t, c))" "snd (intern a (t, c))"] by simp
qed

lemma atom_loop_types:
  "atom_loop P i es s = Inr s' \<Longrightarrow>
   (atom_types s', atom_type_counter s') =
     fold intern (map elem_key es) (atom_types s, atom_type_counter s)"
proof (induction es arbitrary: i s)
  case Nil
  then show ?case by simp
next
  case (Cons e es)
  from Cons.prems have ok: "atom_ok P e"
    using atom_step_Inl[of P e i s] by (auto split: sum.splits)
  show ?case
    using Cons.prems Cons.IH by (simp add: atom_step_Inr[OF ok])
qed

lemma atom_loop_atoms:
  assumes "atom_loop P i es s = Inr s'" and "\<forall>k\<in>fst ` set (atoms s). k < i"
  shows "atoms s' = atoms s @
     map (\<lambda>(j, e). (j, final_atom P e (map_of (atom_types s') (elem_key e))))
       (enumerate i es)"
  using assms
proof (induction es arbitrary: i s)
  case Nil
  then show ?case by simp
next
  case (Cons e es)
  from Cons.prems(1) have ok: "atom_ok P e"
    using atom_step_Inl[of P e i s] by (auto split: sum.splits)
  define tc where "tc = intern (elem_key e) (atom_types s, atom_type_counter s)"
  define s1 where "s1 = s\<lparr>xsd_id_to_lammps_idx :=
        AList.update (the (p_int P (the (attrib e ''ID'')))) i (xsd_id_to_lammps_idx s),
      atoms := AList.update i (final_atom P e (map_of (fst tc) (elem_key e))) (atoms s),
      atom_types := fst tc, atom_type_counter := snd tc\<rparr>"
  have step: "atom_step P i e s = Inr s1"
    unfolding s1_def tc_def by (rule atom_step_Inr[OF ok])
  with Cons.prems(1) have rest: "atom_loop P (Suc i) es s1 = Inr s'" by simp
  have fresh: "i \<notin> fst ` set (atoms s)" using Cons.prems(2) by auto
  have a1: "atoms s1 = atoms s @ [(i, final_atom P e (map_of (fst tc) (elem_key e)))]"
    by (simp add: s1_def update_append[OF fresh])
  have bound: "\<forall>k\<in>fst ` set (atoms s1). k < Suc i"
    using Cons.prems(2) by (auto simp: a1 less_Suc_eq)
  obtain t where t: "map_of (fst tc) (elem_key e) = Some t"
    unfolding tc_def
    using intern_lookup[of "elem_key e" "atom_types s" "atom_type_counter s"] by blast
  have "(atom_types s', atom_type_counter s') =
      fold intern (map elem_key es) (atom_types s1, atom_type_counter s1)"
    by (rule atom_loop_types[OF rest])
  then have "atom_types s' = fst (fold intern (map elem_key es) (fst tc, snd tc))"
    by (simp add: s1_def) (metis fst_conv)
  then have t': "map_of (atom_types s') (elem_key e) = Some t"
    using fold_intern_stable[OF t, of "map elem_key es" "snd tc"] by simp
  show ?case
    using Cons.IH[OF rest bound] by (simp add: a1 t t')
qed

lemma first_seen_Nil: "first_seen [] = []"
  by (simp add: first_seen_def)

lemma first_seen_snoc:
  "first_seen (xs @ [k]) = (if k \<in> set xs then first_seen xs else first_seen xs @ [k])"
  by (simp add: first_seen_def)

lemma set_first_seen: "set (first_seen xs) = set xs"
  by (simp add: first_seen_def)

lemma distinct_first_seen: "distinct (first_seen xs)"
  by (simp add: first_seen_def)

lemma table_of_Nil: "table_of [] = ([], 0)"
  by (simp add: table_of_def)

lemma keys_table_of: "map fst (fst (table_of ks)) = ks"
  by (simp add: table_of_def del: upt_Suc)

lemma keys_zip: "length ks = length ns \<Longrightarrow> fst ` set (zip ks ns) = set ks"
  by (metis map_fst_zip set_map)

lemma intern_table_of:
  assumes "distinct ks"
  shows "intern k (table_of ks) = table_of (if k \<in> set ks then ks else ks @ [k])"
proof (cases "k \<in> set ks")
  case True
  then show ?thesis by (simp add: intern_def table_of_def keys_zip del: upt_Suc)
next
  case False
  have "AList.update k (Suc (length ks)) (zip ks [1..<Suc (length ks)]) =
        zip ks [1..<Suc (length ks)] @ [(k, Suc (length ks))]"
    by (rule update_append) (simp add: keys_zip False del: upt_Suc)
  moreover have "zip (ks @ [k]) [1..<Suc (Suc (length ks))] =
        zip ks [1..<Suc (length ks)] @ [(k, Suc (length ks))]"
    using upt_Suc_append[of 1 "Suc (length ks)"] by (simp del: upt_Suc)
  ultimately show ?thesis using False by (simp add: intern_def table_of_def keys_zip del: upt_Suc)
qed

lemma intern_first_seen:
  "intern k (table_of (first_seen ks)) = table_of (first_seen (ks @ [k]))"
  by (simp add: intern_table_of distinct_first_seen set_first_seen first_seen_snoc)

lemma fold_intern_first_seen:
  "fold intern ks (table_of (first_seen ks0)) = table_of (first_seen (ks0 @ ks))"
proof (induction ks arbitrary: ks0)
  case Nil
  then show ?case by simp
next
  case (Cons k ks)
  show ?case using Cons.IH[of "ks0 @ [k]"] by (simp add: intern_first_seen)
qed

lemma sorted_pair_min_max: "sorted_pair a b = (min a b, max a b)"
  by (auto simp: sorted_pair_def min_def max_def)

lemma bond_step_skip:
  assumes "connects_ids P b = None \<or>
           (\<exists>ids. connects_ids P b = Some ids \<and>
              (length ids \<noteq> 2 \<or> (\<exists>x\<in>set ids. map_of (xsd_id_to_lammps_idx self) x = None)))"
  shows "bond_step P b (self, bid, processed) = Inr (self, bid, processed)"
  using assms
  by (auto simp: bond_step_def connects_ids_def Let_def split: option.splits list.splits)

lemma bond_step_seen:
  assumes "connects_ids P b = Some [x, y]"
    "map_of (xsd_id_to_lammps_idx self) x = Some i" "map_of (xsd_id_to_lammps_idx self) y = Some j"
    "sorted_pair i j \<in> processed"
  shows "bond_step P b (self, bid, processed) = Inr (self, bid, processed)"
  using assms
  by (auto simp: bond_step_def connects_ids_def Let_def split: option.splits list.splits if_splits)

lemma bond_step_accept:
  assumes "connects_ids P b = Some [x, y]"
    "map_of (xsd_id_to_lammps_idx self) x = Some i" "map_of (xsd_id_to_lammps_idx self) y = Some j"
    "sorted_pair i j \<notin> processed"
    "map_of (atoms self) i = Some a1" "map_of (atoms self) j = Some a2"
    "map_of (fst (intern (bond_key a1 a2 order) (bond_types self, bond_type_counter self)))
       (bond_key a1 a2 order) = Some t"
    "order = get_default b ''Type'' ''Single''"
  shows "bond_step P b (self, bid, processed) =
     Inr (self\<lparr>bond_types := fst (intern (bond_key a1 a2 order) (bond_types self, bond_type_counter self)),
               bond_type_counter := snd (intern (bond_key a1 a2 order) (bond_types self, bond_type_counter self)),
               bonds := bonds self @
                 [\<lparr>bond_id = bid, bond_type = t, atom1 = min i j, atom2 = max i j,
                   bond_order = order, bond_elements = bond_key a1 a2 order\<rparr>]\<rparr>,
          Suc bid, insert (min i j, max i j) processed)"
  using assms
  by (auto simp: bond_step_def connects_ids_def Let_def dict_get_def sorted_pair_min_max bond_key_def
      split: option.splits list.splits if_splits)

lemma bond_key_commute: "bond_key a2 a1 order = bond_key a1 a2 order"
  by (simp add: bond_key_def min.commute max.commute)

lemma bond_inv_accept:
  assumes inv: "bond_inv (self, bid, processed)"
    and new: "(min i j, max i j) \<notin> processed"
    and a1: "map_of (atoms self) i = Some a1" and a2: "map_of (atoms self) j = Some a2"
    and t: "map_of (fst (intern (bond_key a1 a2 order) (bond_types self, bond_type_counter self)))
       (bond_key a1 a2 order) = Some t"
  shows "bond_inv
     (self\<lparr>bond_types := fst (intern (bond_key a1 a2 order) (bond_types self, bond_type_counter self)),
           bond_type_counter := snd (intern (bond_key a1 a2 order) (bond_types self, bond_type_counter self)),
           bonds := bonds self @
             [\<lparr>bond_id = bid, bond_type = t, atom1 = min i j, atom2 = max i j,
               bond_order = order, bond_elements = bond_key a1 a2 order\<rparr>]\<rparr>,
      Suc bid, insert (min i j, max i j) processed)"
proof -
  define key where "key = bond_key a1 a2 order"
  define tc where "tc = intern key (bond_types self, bond_type_counter self)"
  define nb where "nb = \<lparr>bond_id = bid, bond_type = t, atom1 = min i j, atom2 = max i j,
               bond_order = order, bond_elements = key\<rparr>"
  from inv have ids: "map bond_id (bonds self) = [1..<bid]" and pos: "0 < bid"
    and pr: "processed = (\<lambda>b. (atom1 b, atom2 b)) ` set (bonds self)"
    and dist: "distinct (map (\<lambda>b. (atom1 b, atom2 b)) (bonds self))"
    and tab: "(bond_types self, bond_type_counter self) =
          table_of (first_seen (map bond_elements (bonds self)))"
    and each: "\<forall>b\<in>set (bonds self).
           atom1 b \<le> atom2 b \<and>
           map_of (bond_types self) (bond_elements b) = Some (bond_type b) \<and>
           (\<exists>a1 a2. map_of (atoms self) (atom1 b) = Some a1 \<and>
                    map_of (atoms self) (atom2 b) = Some a2 \<and>
                    bond_elements b = bond_key a1 a2 (bond_order b))"
    by (simp_all add: bond_inv_def)
  have c1: "map bond_id (bonds self @ [nb]) = [1..<Suc bid]"
    using ids pos by (simp add: nb_def)
  have c2: "insert (min i j, max i j) processed =
      (\<lambda>b. (atom1 b, atom2 b)) ` set (bonds self @ [nb])"
    by (simp add: pr nb_def)
  have c3: "distinct (map (\<lambda>b. (atom1 b, atom2 b)) (bonds self @ [nb]))"
    using dist new by (simp add: pr nb_def)
  have "tc = table_of (first_seen (map bond_elements (bonds self) @ [key]))"
    unfolding tc_def tab by (rule intern_first_seen)
  then have c4: "(fst tc, snd tc) = table_of (first_seen (map bond_elements (bonds self @ [nb])))"
    by (simp add: nb_def)
  have tnew: "map_of (fst tc) key = Some t"
    using t by (simp add: tc_def key_def)
  have ends: "\<exists>b1 b2. map_of (atoms self) (min i j) = Some b1 \<and>
      map_of (atoms self) (max i j) = Some b2 \<and> key = bond_key b1 b2 order"
  proof (cases "i \<le> j")
    case True
    then show ?thesis using a1 a2 by (auto simp: key_def min_def max_def)
  next
    case False
    then show ?thesis using a1 a2 bond_key_commute[of a2 a1 order]
      by (auto simp: key_def min_def max_def)
  qed
  have c5: "\<forall>b\<in>set (bonds self @ [nb]).
           atom1 b \<le> atom2 b \<and>
           map_of (fst tc) (bond_elements b) = Some (bond_type b) \<and>
           (\<exists>a1 a2. map_of (atoms self) (atom1 b) = Some a1 \<and>
                    map_of (atoms self) (atom2 b) = Some a2 \<and>
                    bond_elements b = bond_key a1 a2 (bond_order b))"
  proof
    fix b assume "b \<in> set (bonds self @ [nb])"
    then consider "b \<in> set (bonds self)" | "b = nb" by auto
    then show "atom1 b \<le> atom2 b \<and>
           map_of (fst tc) (bond_elements b) = Some (bond_type b) \<and>
           (\<exists>a1 a2. map_of (atoms self) (atom1 b) = Some a1 \<and>
                    map_of (atoms self) (atom2 b) = Some a2 \<and>
                    bond_elements b = bond_key a1 a2 (bond_order b))"
    proof cases
      case 1
      with each have old: "atom1 b \<le> atom2 b"
        "map_of (bond_types self) (bond_elements b) = Some (bond_type b)"
        "\<exists>a1 a2. map_of (atoms self) (atom1 b) = Some a1 \<and>
                    map_of (atoms self) (atom2 b) = Some a2 \<and>
                    bond_elements b = bond_key a1 a2 (bond_order b)"
        by auto
      have "map_of (fst tc) (bond_elements b) = Some (bond_type b)"
        unfolding tc_def using old(2) by (rule intern_stable)
      with old show ?thesis by simp
    next
      case 2
      then show ?thesis using tnew ends by (simp add: nb_def)
    qed
  qed
  show ?thesis
    using c1 pos c2 c3 c4 c5
    unfolding bond_inv_def key_def[symmetric] tc_def[symmetric] nb_def[symmetric]
    by simp
qed

lemma bond_frame_refl: "bond_frame self self"
proof -
  have "self = self\<lparr>bonds := bonds self, bond_types := bond_types self,
                  bond_type_counter := bond_type_counter self\<rparr>"
    by simp
  then show ?thesis unfolding bond_frame_def by blast
qed

lemma bond_frame_trans: "bond_frame a b \<Longrightarrow> bond_frame b c \<Longrightarrow> bond_frame a c"
  unfolding bond_frame_def by clarsimp blast

lemma bond_frame_accept:
  "bond_frame self (self\<lparr>bond_types := bt, bond_type_counter := bc, bonds := bs\<rparr>)"
proof -
  have "self\<lparr>bond_types := bt, bond_type_counter := bc, bonds := bs\<rparr> =
        self\<lparr>bonds := bs, bond_types := bt, bond_type_counter := bc\<rparr>"
    by simp
  then show ?thesis unfolding bond_frame_def by blast
qed

lemma idx_lookup:
  assumes "idx_inv self" "map_of (xsd_id_to_lammps_idx self) x = Some i"
  shows "\<exists>a. map_of (atoms self) i = Some a"
  using assms by (auto simp: idx_inv_def)

lemma bond_step_inv:
  assumes idx: "idx_inv self" and inv: "bond_inv (self, bid, processed)"
  shows "\<exists>self' bid' processed'.
     bond_step P b (self, bid, processed) = Inr (self', bid', processed') \<and>
     bond_inv (self', bid', processed') \<and> bond_frame self self'"
proof -
  have keep: "bond_step P b (self, bid, processed) = Inr (self, bid, processed) \<Longrightarrow> ?thesis"
    using inv bond_frame_refl by blast
  show ?thesis
  proof (cases "connects_ids P b")
    case None
    then show ?thesis using keep bond_step_skip[of P b self bid processed] by simp
  next
    case (Some ids)
    show ?thesis
    proof (cases "length ids \<noteq> 2 \<or> (\<exists>x\<in>set ids. map_of (xsd_id_to_lammps_idx self) x = None)")
      case True
      then show ?thesis using keep bond_step_skip[of P b self bid processed] Some by blast
    next
      case False
      then have "length ids = 2" by simp
      then obtain x y where xy: "ids = [x, y]"
        by (metis (no_types, opaque_lifting) One_nat_def Suc_1 length_0_conv length_Suc_conv)
      from False xy obtain i j where ij: "map_of (xsd_id_to_lammps_idx self) x = Some i"
        "map_of (xsd_id_to_lammps_idx self) y = Some j"
        by auto
      show ?thesis
      proof (cases "sorted_pair i j \<in> processed")
        case True
        then have "bond_step P b (self, bid, processed) = Inr (self, bid, processed)"
          using Some xy ij by (intro bond_step_seen) simp_all
        then show ?thesis by (rule keep)
      next
        case new: False
        obtain a1 a2 where a: "map_of (atoms self) i = Some a1" "map_of (atoms self) j = Some a2"
          using idx_lookup[OF idx ij(1)] idx_lookup[OF idx ij(2)] by blast
        define order where "order = get_default b ''Type'' ''Single''"
        obtain t where t: "map_of (fst (intern (bond_key a1 a2 order) (bond_types self, bond_type_counter self)))
            (bond_key a1 a2 order) = Some t"
          using intern_lookup[of "bond_key a1 a2 order" "bond_types self" "bond_type_counter self"] by blast
        have new': "(min i j, max i j) \<notin> processed"
          using new by (simp add: sorted_pair_min_max)
        have c: "connects_ids P b = Some [x, y]" using Some xy by simp
        have step: "bond_step P b (self, bid, processed) =
           Inr (self\<lparr>bond_types := fst (intern (bond_key a1 a2 order) (bond_types self, bond_type_counter self)),
               bond_type_counter := snd (intern (bond_key a1 a2 order) (bond_types self, bond_type_counter self)),
               bonds := bonds self @
                 [\<lparr>bond_id = bid, bond_type = t, atom1 = min i j, atom2 = max i j,
                   bond_order = order, bond_elements = bond_key a1 a2 order\<rparr>]\<rparr>,
              Suc bid, insert (min i j, max i j) processed)"
          using c ij new a t order_def by (rule bond_step_accept)
        have "bond_inv (self\<lparr>bond_types := fst (intern (bond_key a1 a2 order) (bond_types self, bond_type_counter self)),
               bond_type_counter := snd (intern (bond_key a1 a2 order) (bond_types self, bond_type_counter self)),
               bonds := bonds self @
                 [\<lparr>bond_id = bid, bond_type = t, atom1 = min i j, atom2 = max i j,
                   bond_order = order, bond_elements = bond_key a1 a2 order\<rparr>]\<rparr>,
              Suc bid, insert (min i j, max i j) processed)"
          using inv new' a t by (rule bond_inv_accept)
        with step bond_frame_accept show ?thesis by blast
      qed
    qed
  qed
qed

lemma idx_inv_frame: "bond_frame self self' \<Longrightarrow> idx_inv self \<Longrightarrow> idx_inv self'"
  by (auto simp: bond_frame_def idx_inv_def)

lemma bond_loop_inv:
  assumes "idx_inv (fst st)" "bond_inv st"
  shows "\<exists>st'. bond_loop P bs st = Inr st' \<and> bond_inv st' \<and> bond_frame (fst st) (fst st')"
  using assms
proof (induction bs arbitrary: st)
  case Nil
  then show ?case by (simp add: bond_frame_refl)
next
  case (Cons b bs)
  obtain self bid processed where st: "st = (self, bid, processed)"
    by (cases st) auto
  from Cons.prems st obtain self' bid' processed' where
    step: "bond_step P b st = Inr (self', bid', processed')"
    and inv': "bond_inv (self', bid', processed')" and fr: "bond_frame self self'"
    using bond_step_inv[of self bid processed P b] by auto
  have "idx_inv (fst (self', bid', processed'))"
    using idx_inv_frame[OF fr] Cons.prems(1) st by simp
  from Cons.IH[OF this inv'] obtain st' where
    rest: "bond_loop P bs (self', bid', processed') = Inr st'" and "bond_inv st'"
    and "bond_frame self' (fst st')"
    by auto
  then show ?case using step fr st bond_frame_trans by fastforce
qed

lemma atom_step_idx:
  assumes "atom_step P i e s = Inr s'" "idx_inv s"
  shows "idx_inv s'"
proof -
  from assms(1) have ok: "atom_ok P e"
    using atom_step_Inl[of P e i s] by auto
  show ?thesis
    using assms
    by (auto simp: atom_step_Inr[OF ok] idx_inv_def update_conv' split: if_splits)
qed

lemma atom_loop_idx:
  "atom_loop P i es s = Inr s' \<Longrightarrow> idx_inv s \<Longrightarrow> idx_inv s'"
proof (induction es arbitrary: i s)
  case Nil
  then show ?case by simp
next
  case (Cons e es)
  then show ?case using atom_step_idx by (fastforce split: sum.splits)
qed

lemma atom_step_frame:
  assumes "atom_step P i e s = Inr s'"
  shows "bonds s' = bonds s \<and> bond_types s' = bond_types s \<and>
         bond_type_counter s' = bond_type_counter s \<and> box_bounds s' = box_bounds s"
proof -
  from assms have ok: "atom_ok P e"
    using atom_step_Inl[of P e i s] by auto
  show ?thesis using assms by (auto simp: atom_step_Inr[OF ok])
qed

lemma atom_loop_frame:
  "atom_loop P i es s = Inr s' \<Longrightarrow>
   bonds s' = bonds s \<and> bond_types s' = bond_types s \<and>
   bond_type_counter s' = bond_type_counter s \<and> box_bounds s' = box_bounds s"
proof (induction es arbitrary: i s)
  case Nil
  then show ?case by simp
next
  case (Cons e es)
  then show ?case using atom_step_frame by (fastforce split: sum.splits)
qed

lemma py_min_Inr: "xs \<noteq> [] \<Longrightarrow> \<exists>m. py_min P xs = Inr m"
  by (cases xs) (simp_all add: py_min_def)

lemma py_max_Inr: "xs \<noteq> [] \<Longrightarrow> \<exists>m. py_max P xs = Inr m"
  by (cases xs) (simp_all add: py_max_def)

lemma calculate_box_bounds_empty:
  "atoms self = [] \<Longrightarrow> calculate_box_bounds P self = Inr self"
  by (simp add: calculate_box_bounds_def)

lemma calculate_box_bounds_Inr:
  assumes "atoms self \<noteq> []"
  shows "\<exists>x0 x1 y0 y1 z0 z1.
     py_min P (map (\<lambda>kv. atom_x (snd kv)) (atoms self)) = Inr x0 \<and>
     py_max P (map (\<lambda>kv. atom_x (snd kv)) (atoms self)) = Inr x1 \<and>
     py_min P (map (\<lambda>kv. atom_y (snd kv)) (atoms self)) = Inr y0 \<and>
     py_max P (map (\<lambda>kv. atom_y (snd kv)) (atoms self)) = Inr y1 \<and>
     py_min P (map (\<lambda>kv. atom_z (snd kv)) (atoms self)) = Inr z0 \<and>
     py_max P (map (\<lambda>kv. atom_z (snd kv)) (atoms self)) = Inr z1 \<and>
     calculate_box_bounds P self =
       Inr (self\<lparr>box_bounds :=
               \<lparr>xlo = f_sub P x0 (f_ten P), xhi = f_add P x1 (f_ten P),
                ylo = f_sub P y0 (f_ten P), yhi = f_add P y1 (f_ten P),
                zlo = f_sub P z0 (f_ten P), zhi = f_add P z1 (f_ten P)\<rparr>\<rparr>)"
proof -
  let ?xs = "map (\<lambda>kv. atom_x (snd kv)) (atoms self)"
  let ?ys = "map (\<lambda>kv. atom_y (snd kv)) (atoms self)"
  let ?zs = "map (\<lambda>kv. atom_z (snd kv)) (atoms self)"
  from assms have ne: "?xs \<noteq> []" "?ys \<noteq> []" "?zs \<noteq> []" by simp_all
  obtain x0 x1 y0 y1 z0 z1 where m:
    "py_min P ?xs = Inr x0" "py_max P ?xs = Inr x1"
    "py_min P ?ys = Inr y0" "py_max P ?ys = Inr y1"
    "py_min P ?zs = Inr z0" "py_max P ?zs = Inr z1"
    using py_min_Inr[OF ne(1), of P] py_max_Inr[OF ne(1), of P]
      py_min_Inr[OF ne(2), of P] py_max_Inr[OF ne(2), of P]
      py_min_Inr[OF ne(3), of P] py_max_Inr[OF ne(3), of P]
    by blast
  have "calculate_box_bounds P self =
       Inr (self\<lparr>box_bounds :=
               \<lparr>xlo = f_sub P x0 (f_ten P), xhi = f_add P x1 (f_ten P),
                ylo = f_sub P y0 (f_ten P), yhi = f_add P y1 (f_ten P),
                zlo = f_sub P z0 (f_ten P), zhi = f_add P z1 (f_ten P)\<rparr>\<rparr>)"
    using assms m by (simp add: calculate_box_bounds_def Let_def)
  with m show ?thesis by blast
qed

lemma calculate_box_bounds_frame:
  "\<exists>bx. calculate_box_bounds P self = Inr (self\<lparr>box_bounds := bx\<rparr>)"
proof (cases "atoms self = []")
  case True
  have "self = self\<lparr>box_bounds := box_bounds self\<rparr>" by simp
  then show ?thesis using calculate_box_bounds_empty[OF True, of P] by metis
next
  case False
  then show ?thesis using calculate_box_bounds_Inr[OF False, of P] by blast
qed

lemma idx_inv_init: "idx_inv (init P)"
  by (simp add: idx_inv_def init_def)

lemma bond_inv_start:
  assumes "bonds s = []" "bond_types s = []" "bond_type_counter s = 0"
  shows "bond_inv (s, 1, {})"
  using assms by (simp add: bond_inv_def table_of_Nil first_seen_Nil)

lemma bond_inv_box: "bond_inv (s\<lparr>box_bounds := bx\<rparr>, bid, pr) = bond_inv (s, bid, pr)"
  by (simp add: bond_inv_def)

lemma bond_loop_after_atoms:
  assumes "atom_loop P 1 es (init P) = Inr s1"
  shows "\<exists>s2 bid processed. bond_loop P bs (s1, 1, {}) = Inr (s2, bid, processed) \<and>
           bond_inv (s2, bid, processed) \<and> bond_frame s1 s2"
proof -
  have "idx_inv s1" using atom_loop_idx[OF assms idx_inv_init] .
  moreover have "bond_inv (s1, 1, {})"
    using atom_loop_frame[OF assms] by (intro bond_inv_start) (simp_all add: init_def)
  ultimately show ?thesis
    using bond_loop_inv[of "(s1, 1, {})" P bs] by (metis fst_conv prod_cases3)
qed

lemma parse_xsd_init_Inr:
  assumes "\<forall>e\<in>set (find_elements ''Atom3d'' root). atom_ok P e"
  shows "\<exists>self n. parse_xsd P root (init P) = Inr (self, n)"
proof -
  from assms obtain s1 where s1: "atom_loop P 1 (find_elements ''Atom3d'' root) (init P) = Inr s1"
    using atom_loop_Inr_iff[of P 1 "find_elements ''Atom3d'' root" "init P"] by blast
  obtain s2 bid processed where
    b: "bond_loop P (find_elements ''Bond'' root) (s1, 1, {}) = Inr (s2, bid, processed)"
    using bond_loop_after_atoms[OF s1] by blast
  obtain bx where "calculate_box_bounds P s2 = Inr (s2\<lparr>box_bounds := bx\<rparr>)"
    using calculate_box_bounds_frame by blast
  then show ?thesis
    using s1 b by (simp add: parse_xsd_def extract_bonds_from_bond_elements_def)
qed

lemma parse_xsd_init_split:
  assumes "parse_xsd P root (init P) = Inr (self, n)"
  shows "\<exists>s1 s2 bid processed.
    atom_loop P 1 (find_elements ''Atom3d'' root) (init P) = Inr s1 \<and>
    bond_loop P (find_elements ''Bond'' root) (s1, 1, {}) = Inr (s2, bid, processed) \<and>
    bond_inv (s2, bid, processed) \<and> bond_frame s1 s2 \<and>
    calculate_box_bounds P s2 = Inr self \<and> n = length (atoms self)"
proof -
  from assms obtain s1 where s1: "atom_loop P 1 (find_elements ''Atom3d'' root) (init P) = Inr s1"
    by (auto simp: parse_xsd_def split: sum.splits)
  obtain s2 bid processed where
    b: "bond_loop P (find_elements ''Bond'' root) (s1, 1, {}) = Inr (s2, bid, processed)"
    and i: "bond_inv (s2, bid, processed)" "bond_frame s1 s2"
    using bond_loop_after_atoms[OF s1] by blast
  from assms s1 b have "calculate_box_bounds P s2 = Inr self \<and> n = length (atoms self)"
    by (auto simp: parse_xsd_def extract_bonds_from_bond_elements_def split: sum.splits)
  with s1 b i show ?thesis by blast
qed

lemma atom_loop_first_missing:
  assumes "\<forall>e\<in>set pre. atom_ok P e" "attrib e ''ID'' = None"
  shows "atom_loop P i (pre @ e # post) s = Inl TypeError"
  using assms
proof (induction pre arbitrary: i s)
  case Nil
  then show ?case by (simp add: atom_step_def)
next
  case (Cons a pre)
  then show ?case by (simp add: atom_step_Inr)
qed

subsection \<open>The writer\<close>

lemma emitsD: "emits step lines \<Longrightarrow> step (self, out) = Inr (self, out @ lines self)"
  by (simp add: emits_def)

lemma emits_write: "emits (f_write (\<lambda>self. Inr (t self))) (\<lambda>self. [t self])"
  by (simp add: emits_def f_write_def)

lemma emits_Nil: "emits (run_steps []) (\<lambda>self. [])"
  by (simp add: emits_def)

lemma emits_Cons:
  assumes "emits f g" "emits (run_steps fs) h"
  shows "emits (run_steps (f # fs)) (\<lambda>self. g self @ h self)"
  using assms by (simp add: emits_def)

lemma run_steps_rows:
  assumes "\<forall>x\<in>set xs. \<forall>out. body x (self, out) = Inr (self, out @ [t x])"
  shows "run_steps (map body xs) (self, out) = Inr (self, out @ map t xs)"
  using assms by (induction xs arbitrary: out) simp_all

lemma emits_for_each:
  assumes "\<And>self x out. x \<in> set (it self) \<Longrightarrow> body x (self, out) = Inr (self, out @ [t self x])"
  shows "emits (for_each it body) (\<lambda>self. map (t self) (it self))"
  unfolding emits_def for_each_def
  using assms by (simp add: run_steps_rows)

lemma emits_when:
  assumes "emits body g"
  shows "emits (when_true c body) (\<lambda>self. if c self then g self else [])"
  using assms by (simp add: emits_def when_true_def)

lemma emits_header:
  "emits (write_header P)
     (\<lambda>self. header_lines P self @ box_lines P self @ [''\<newline>'', ''Masses\<newline>'', ''\<newline>''])"
  by (simp add: emits_def write_header_def f_write_def header_lines_def box_lines_def)

lemma set_keys_by_value: "set (keys_by_value d) = fst ` set d"
  by (simp add: keys_by_value_def)

lemma mass_row_Inr:
  assumes "ff \<in> set (keys_by_value (atom_types self))"
  shows "mass_row ff self =
     Inr (show_nat (the (map_of (atom_types self) ff)) @ '' '' @ mass_text ff @ ''  # '' @ ff @ ''\<newline>'')"
proof -
  from assms have "ff \<in> fst ` set (atom_types self)" by (simp add: set_keys_by_value)
  then obtain v where "map_of (atom_types self) ff = Some v"
    by (meson map_of_eq_None_iff not_Some_eq)
  then show ?thesis by (simp add: mass_row_def dict_get_def)
qed

lemma emits_masses:
  "emits write_masses
     (\<lambda>self. map (\<lambda>ff. show_nat (the (map_of (atom_types self) ff)) @ '' '' @ mass_text ff @
                        ''  # '' @ ff @ ''\<newline>'')
               (keys_by_value (atom_types self)) @ [''\<newline>''])"
proof -
  have a: "emits (for_each (\<lambda>self. keys_by_value (atom_types self)) (\<lambda>ff_type. f_write (mass_row ff_type)))
      (\<lambda>self. map (\<lambda>ff. show_nat (the (map_of (atom_types self) ff)) @ '' '' @ mass_text ff @
                        ''  # '' @ ff @ ''\<newline>'')
               (keys_by_value (atom_types self)))"
    by (rule emits_for_each) (simp add: f_write_def mass_row_Inr)
  show ?thesis
    unfolding write_masses_def
    using emits_Cons[OF a emits_Cons[OF emits_write[of "\<lambda>self. ''\<newline>''"] emits_Nil]]
    by simp
qed

lemma emits_bond_types:
  "emits write_bond_types
     (\<lambda>self. if bond_types self \<noteq> [] then
        [''# Bond Types Reference:\<newline>''] @ map bond_type_row (sort_key snd (bond_types self)) @
        [''\<newline>''] else [])"
proof -
  have a: "emits (for_each (\<lambda>self. sort_key snd (bond_types self))
           (\<lambda>item. f_write (\<lambda>self. Inr (bond_type_row item))))
      (\<lambda>self. map bond_type_row (sort_key snd (bond_types self)))"
    by (rule emits_for_each) (simp add: f_write_def)
  show ?thesis
    unfolding write_bond_types_def
    using emits_when[OF emits_Cons[OF emits_write[of "\<lambda>self. ''# Bond Types Reference:\<newline>''"]
          emits_Cons[OF a emits_Cons[OF emits_write[of "\<lambda>self. ''\<newline>''"] emits_Nil]]],
        of "\<lambda>self. bond_types self \<noteq> []"]
    by (simp cong: if_cong)
qed

lemma atom_row_Inr:
  assumes "idx \<in> set (sort (map fst (atoms self)))"
  shows "atom_row P idx self = Inr (atom_text P idx (the (map_of (atoms self) idx)))"
proof -
  from assms have "idx \<in> fst ` set (atoms self)" by simp
  then obtain a where "map_of (atoms self) idx = Some a"
    by (meson map_of_eq_None_iff not_Some_eq)
  then show ?thesis by (simp add: atom_row_def dict_get_def)
qed

lemma emits_atoms:
  "emits (write_atoms P)
     (\<lambda>self. [''Atoms\<newline>'', ''\<newline>''] @
        map (\<lambda>idx. atom_text P idx (the (map_of (atoms self) idx))) (sort (map fst (atoms self))) @
        [''\<newline>''])"
proof -
  have a: "emits (for_each (\<lambda>self. sort (map fst (atoms self))) (\<lambda>atom_idx. f_write (atom_row P atom_idx)))
      (\<lambda>self. map (\<lambda>idx. atom_text P idx (the (map_of (atoms self) idx))) (sort (map fst (atoms self))))"
    by (rule emits_for_each) (simp add: f_write_def atom_row_Inr del: set_sort)
  show ?thesis
    unfolding write_atoms_def
    using emits_Cons[OF emits_write[of "\<lambda>self. ''Atoms\<newline>''"]
        emits_Cons[OF emits_write[of "\<lambda>self. ''\<newline>''"]
          emits_Cons[OF a emits_Cons[OF emits_write[of "\<lambda>self. ''\<newline>''"] emits_Nil]]]]
    by simp
qed

lemma emits_bonds:
  "emits write_bonds
     (\<lambda>self. if bonds self \<noteq> [] then
        [''Bonds\<newline>'', ''\<newline>''] @ map bond_row (bonds self) @ [''\<newline>''] else [])"
proof -
  have a: "emits (for_each bonds (\<lambda>b. f_write (\<lambda>self. Inr (bond_row b))))
      (\<lambda>self. map bond_row (bonds self))"
    by (rule emits_for_each) (simp add: f_write_def)
  show ?thesis
    unfolding write_bonds_def
    using emits_when[OF emits_Cons[OF emits_write[of "\<lambda>self. ''Bonds\<newline>''"]
        emits_Cons[OF emits_write[of "\<lambda>self. ''\<newline>''"]
          emits_Cons[OF a emits_Cons[OF emits_write[of "\<lambda>self. ''\<newline>''"] emits_Nil]]]],
        of "\<lambda>self. bonds self \<noteq> []"]
    by (simp cong: if_cong)
qed

lemma write_lammps_data_lines:
  "write_lammps_data P (self, out) =
     Inr (self, out @
       (header_lines P self @ box_lines P self @ [''\<newline>'', ''Masses\<newline>'', ''\<newline>'']) @
       (map (\<lambda>ff. show_nat (the (map_of (atom_types self) ff)) @ '' '' @ mass_text ff @
                        ''  # '' @ ff @ ''\<newline>'')
               (keys_by_value (atom_types self)) @ [''\<newline>'']) @
       (if bond_types self \<noteq> [] then
        [''# Bond Types Reference:\<newline>''] @ map bond_type_row (sort_key snd (bond_types self)) @
        [''\<newline>''] else []) @
       ([''Atoms\<newline>'', ''\<newline>''] @
        map (\<lambda>idx. atom_text P idx (the (map_of (atoms self) idx))) (sort (map fst (atoms self))) @
        [''\<newline>'']) @
       (if bonds self \<noteq> [] then
        [''Bonds\<newline>'', ''\<newline>''] @ map bond_row (bonds self) @ [''\<newline>''] else []))"
  unfolding write_lammps_data_def
  using emitsD[OF emits_Cons[OF emits_header[of P] emits_Cons[OF emits_masses
     emits_Cons[OF emits_bond_types emits_Cons[OF emits_atoms[of P] emits_Cons[OF emits_bonds emits_Nil]]]]],
     of self out]
  by (simp cong: if_cong)

subsection \<open>The model after parse\_xsd\<close>

lemma rows_sorted_keys:
  assumes "sorted (map fst al)" "distinct (map fst al)"
  shows "map (\<lambda>idx. f idx (the (map_of al idx))) (sort (map fst al)) =
         map (\<lambda>kv. f (fst kv) (snd kv)) al"
proof -
  have "sort (map fst al) = map fst al"
    using assms(1) by (rule sort_key_id_if_sorted[where f="\<lambda>x. x", simplified])
  moreover have "map_of al (fst kv) = Some (snd kv)" if "kv \<in> set al" for kv
    using assms(2) that by (cases kv) (simp add: map_of_is_SomeI)
  ultimately show ?thesis by (simp add: comp_def)
qed

lemma bond_frame_atoms:
  "bond_frame s s' \<Longrightarrow>
   atoms s' = atoms s \<and> atom_types s' = atom_types s \<and> atom_type_counter s' = atom_type_counter s \<and>
   xsd_id_to_lammps_idx s' = xsd_id_to_lammps_idx s \<and> box_bounds s' = box_bounds s"
  by (auto simp: bond_frame_def)

lemma calculate_box_bounds_keeps:
  assumes "calculate_box_bounds P s = Inr s'"
  shows "atoms s' = atoms s \<and> atom_types s' = atom_types s \<and>
         atom_type_counter s' = atom_type_counter s \<and> bonds s' = bonds s \<and>
         bond_types s' = bond_types s \<and> bond_type_counter s' = bond_type_counter s \<and>
         xsd_id_to_lammps_idx s' = xsd_id_to_lammps_idx s"
  using assms calculate_box_bounds_frame[of P s] by auto

lemma parse_xsd_atoms:
  assumes "parse_xsd P root (init P) = Inr (self, n)"
  shows "atoms self =
           map (\<lambda>(j, e). (j, final_atom P e (map_of (atom_types self) (elem_key e))))
             (enumerate 1 (find_elements ''Atom3d'' root)) \<and>
         (atom_types self, atom_type_counter self) =
           table_of (first_seen (map elem_key (find_elements ''Atom3d'' root))) \<and>
         (\<forall>e\<in>set (find_elements ''Atom3d'' root). atom_ok P e) \<and>
         n = length (find_elements ''Atom3d'' root)"
proof -
  let ?es = "find_elements ''Atom3d'' root"
  from parse_xsd_init_split[OF assms] obtain s1 s2 bid processed where
    s1: "atom_loop P 1 ?es (init P) = Inr s1"
    and fr: "bond_frame s1 s2" and bx: "calculate_box_bounds P s2 = Inr self"
    and n: "n = length (atoms self)"
    by blast
  have eq: "atoms self = atoms s1" "atom_types self = atom_types s1"
    "atom_type_counter self = atom_type_counter s1"
    using bond_frame_atoms[OF fr] calculate_box_bounds_keeps[OF bx] by simp_all
  have a: "atoms s1 = atoms (init P) @
     map (\<lambda>(j, e). (j, final_atom P e (map_of (atom_types s1) (elem_key e)))) (enumerate 1 ?es)"
    by (rule atom_loop_atoms[OF s1]) (simp add: init_def)
  have t: "(atom_types s1, atom_type_counter s1) =
      fold intern (map elem_key ?es) (table_of (first_seen []))"
    using atom_loop_types[OF s1] by (simp add: init_def table_of_Nil first_seen_Nil)
  have ok: "\<forall>e\<in>set ?es. atom_ok P e"
    using atom_loop_Inr_iff[of P 1 ?es "init P"] s1 by auto
  from a have a': "atoms self =
     map (\<lambda>(j, e). (j, final_atom P e (map_of (atom_types self) (elem_key e)))) (enumerate 1 ?es)"
    by (simp add: eq init_def)
  then have "length (atoms self) = length ?es" by simp
  with a' t ok n show ?thesis
    by (simp add: eq fold_intern_first_seen)
qed

lemma map_enumerate_snd: "map (\<lambda>je. g (snd je)) (enumerate i es) = map g es"
  by (induction es arbitrary: i) simp_all

lemma map_enumerate_final:
  "map (\<lambda>kv. h (snd kv)) (map (\<lambda>(j, e). (j, g e)) (enumerate i es)) = map (\<lambda>e. h (g e)) es"
  by (induction es arbitrary: i) simp_all

lemma map_fst_final:
  "map fst (map (\<lambda>(j, e). (j, g e)) (enumerate i es)) = [i..<i + length es]"
  by (simp add: comp_def case_prod_unfold map_fst_enumerate[symmetric] del: map_fst_enumerate)

lemma parse_xsd_bonds:
  assumes "parse_xsd P root (init P) = Inr (self, n)"
  shows "\<exists>bid processed. bond_inv (self, bid, processed)"
proof -
  from parse_xsd_init_split[OF assms] obtain s1 s2 bid processed where
    inv: "bond_inv (s2, bid, processed)" and bx: "calculate_box_bounds P s2 = Inr self"
    by blast
  obtain b where "calculate_box_bounds P s2 = Inr (s2\<lparr>box_bounds := b\<rparr>)"
    using calculate_box_bounds_frame by blast
  with bx have "self = s2\<lparr>box_bounds := b\<rparr>" by simp
  with inv show ?thesis using bond_inv_box by blast
qed

lemma intern_idem: "intern k (intern k tc) = intern k tc"
  by (cases tc) (auto simp: intern_def dom_update)

lemma table_of_eq:
  assumes "(t, c) = table_of ks"
  shows "map fst t = ks \<and> map snd t = [1..<Suc (length t)] \<and> c = length t"
proof -
  from assms have t: "t = zip ks [1..<Suc (length ks)]" and c: "c = length ks"
    by (simp_all add: table_of_def del: upt_Suc)
  have l: "length ks = length [1..<Suc (length ks)]" by (simp del: upt_Suc)
  have "map fst t = ks" unfolding t using l by (rule map_fst_zip)
  moreover have "map snd t = [1..<Suc (length ks)]" unfolding t using l by (rule map_snd_zip)
  moreover have "length t = length ks" unfolding t by (simp del: upt_Suc)
  ultimately show ?thesis using c by simp
qed

lemma final_atom_sel:
  "atom_type (final_atom P e t) = t"
  "type_key (final_atom P e t) = Some (elem_key e)"
  "forcefield_type (final_atom P e t) = get_default e ''ForcefieldType'' ''unknown''"
  "element (final_atom P e t) = get_element e"
  "(atom_x (final_atom P e t), atom_y (final_atom P e t), atom_z (final_atom P e t)) =
     parse_xyz P (get_default e ''XYZ'' ''0,0,0'')"
  by (simp_all add: final_atom_def elem_key_def split: prod.splits)

lemma elem_key_rule:
  "elem_key e =
     (case attrib e ''ForcefieldType'' of
        None \<Rightarrow> get_element e
      | Some ff \<Rightarrow> if ff = [] \<or> ff = ''unknown'' then get_element e else ff)"
  by (auto simp: elem_key_def atom_type_key_def get_default_def split: option.splits)

lemma sorted_pairs_inj:
  assumes "{a, b} = {c, d}" "a \<le> b" "c \<le> d"
  shows "(a, b) = (c, (d::nat))"
  using assms by (auto simp: doubleton_eq_iff)

subsection \<open>The box\<close>








subsection \<open>Coordinates\<close>

lemma parse_xyz_bad_data: "parse_xyz P ''bad,data'' = (f_zero P, f_zero P, f_zero P)"
  by (simp add: parse_xyz_def split: option.splits)

lemma parse_xyz_default:
  assumes "\<not> (\<exists>x y z. map (p_float P) (split_on CHR '','' s) = [Some x, Some y, Some z])"
  shows "parse_xyz P s = (f_zero P, f_zero P, f_zero P)"
  using assms by (auto simp: parse_xyz_def split: list.splits option.splits)

lemma parse_xsd_positions:
  assumes "parse_xsd P root (init P) = Inr (self, n)"
  shows "map (\<lambda>kv. (atom_x (snd kv), atom_y (snd kv), atom_z (snd kv))) (atoms self) =
         map (\<lambda>e. parse_xyz P (get_default e ''XYZ'' ''0,0,0'')) (find_elements ''Atom3d'' root)"
proof -
  let ?es = "find_elements ''Atom3d'' root"
  from parse_xsd_atoms[OF assms] have
    a: "atoms self =
           map (\<lambda>(j, e). (j, final_atom P e (map_of (atom_types self) (elem_key e)))) (enumerate 1 ?es)"
    by simp
  have "map (\<lambda>kv. (atom_x (snd kv), atom_y (snd kv), atom_z (snd kv))) (atoms self) =
      map (\<lambda>e. (atom_x (final_atom P e (map_of (atom_types self) (elem_key e))),
                 atom_y (final_atom P e (map_of (atom_types self) (elem_key e))),
                 atom_z (final_atom P e (map_of (atom_types self) (elem_key e))))) ?es"
    by (subst a) (rule map_enumerate_final)
  then show ?thesis by (simp add: final_atom_sel)
qed

lemma parse_xsd_init_Inr_iff:
  "(\<exists>r. parse_xsd P root (init P) = Inr r) \<longleftrightarrow>
   (\<forall>e\<in>set (find_elements ''Atom3d'' root). atom_ok P e)"
proof
  assume "\<exists>r. parse_xsd P root (init P) = Inr r"
  then obtain self n where "parse_xsd P root (init P) = Inr (self, n)" by auto
  from parse_xsd_atoms[OF this] show "\<forall>e\<in>set (find_elements ''Atom3d'' root). atom_ok P e"
    by simp
next
  assume "\<forall>e\<in>set (find_elements ''Atom3d'' root). atom_ok P e"
  from parse_xsd_init_Inr[OF this] show "\<exists>r. parse_xsd P root (init P) = Inr r" by auto
qed

subsection \<open>The document of two atoms and one bond\<close>

lemmas eval_defs =
  parse_xsd_def doc_CH_def document_def atom3d_def bond_el_def find_elements_def findall_desc_def
  accelrys_def atom_step_def get_charge_def get_default_def get_element_def components_elem_def
  findall_child_def find_first_def elem_or_def atom_type_key_def intern_def dict_get_def
  dict_modify_def init_def extract_bonds_from_bond_elements_def bond_step_def strip_def
  py_isspace_def sorted_pair_def calculate_box_bounds_def py_min_def py_max_def Let_def

lemma round_trip_parse:
  assumes "p_int P ''5'' = Some 5" "p_int P ''9'' = Some 9"
  shows "\<exists>self. parse_xsd P doc_CH (init P) = Inr (self, 2) \<and>
      map fst (atoms self) = [1, 2] \<and>
      map (\<lambda>kv. element (snd kv)) (atoms self) = [''C'', ''H''] \<and>
      map (\<lambda>kv. atom_type (snd kv)) (atoms self) = [Some 1, Some 2] \<and>
      atom_types self = [(''C'', 1), (''H'', 2)] \<and>
      bond_types self = [((''C'', ''H'', ''Single''), 1)] \<and>
      bonds self = [\<lparr>bond_id = 1, bond_type = 1, atom1 = 1, atom2 = 2, bond_order = ''Single'',
                      bond_elements = (''C'', ''H'', ''Single'')\<rparr>]"
proof -
  obtain x y z where xyz: "parse_xyz P ''0,0,0'' = (x, y, z)"
    by (cases "parse_xyz P ''0,0,0''") auto
  show ?thesis
    using assms xyz by (simp add: eval_defs)
qed

lemma bond_row_1112:
  "bond_row \<lparr>bond_id = 1, bond_type = 1, atom1 = 1, atom2 = 2, bond_order = ''Single'',
             bond_elements = (''C'', ''H'', ''Single'')\<rparr> = ''1 1 1 2\<newline>''"
  by code_simp

lemma write_bonds_last:
  assumes "bonds self \<noteq> []"
  shows "\<exists>pre. write_lammps_data P (self, []) =
     Inr (self, pre @ [''Bonds\<newline>'', ''\<newline>''] @ map bond_row (bonds self) @ [''\<newline>''])"
proof -
  define pre where "pre =
       (header_lines P self @ box_lines P self @ [''\<newline>'', ''Masses\<newline>'', ''\<newline>'']) @
       (map (\<lambda>ff. show_nat (the (map_of (atom_types self) ff)) @ '' '' @ mass_text ff @
                        ''  # '' @ ff @ ''\<newline>'')
               (keys_by_value (atom_types self)) @ [''\<newline>'']) @
       (if bond_types self \<noteq> [] then
        [''# Bond Types Reference:\<newline>''] @ map bond_type_row (sort_key snd (bond_types self)) @
        [''\<newline>''] else []) @
       ([''Atoms\<newline>'', ''\<newline>''] @
        map (\<lambda>idx. atom_text P idx (the (map_of (atoms self) idx))) (sort (map fst (atoms self))) @
        [''\<newline>''])"
  define post where "post =
       (if bonds self \<noteq> [] then
        [''Bonds\<newline>'', ''\<newline>''] @ map bond_row (bonds self) @ [''\<newline>''] else [])"
  have "write_lammps_data P (self, []) = Inr (self, pre @ post)"
    unfolding write_lammps_data_lines pre_def post_def by simp
  moreover have "post = [''Bonds\<newline>'', ''\<newline>''] @ map bond_row (bonds self) @ [''\<newline>'']"
    unfolding post_def using assms by simp
  ultimately have "write_lammps_data P (self, []) =
     Inr (self, pre @ [''Bonds\<newline>'', ''\<newline>''] @ map bond_row (bonds self) @ [''\<newline>''])"
    by (simp only:)
  then show ?thesis by (rule exI[where x = pre])
qed

subsection \<open>The element symbol\<close>

lemmas element_defs =
  get_element_def components_elem_def findall_desc_def findall_child_def find_first_def
  elem_or_def truthy_def get_default_def accelrys_def claimed_element_def

text \<open>
  A plain-named \<open>Components\<close> child that has no child elements of its own is false for
  \<open>or\<close>, so line 61 passes it over: its text is not read.
\<close>

lemma plain_child_ignored:
  "get_element atom_plain_child = ''X'' \<and> claimed_element atom_plain_child = ''C''"
  by (simp add: atom_plain_child_def element_defs)

subsection \<open>The rows of the Atoms section\<close>

lemma dec_digits_snoc:
  "dec_digits acc (xs @ [c]) =
     (case dec_digits acc xs of
        None \<Rightarrow> None
      | Some v \<Rightarrow> (case digit_val c of None \<Rightarrow> None | Some d \<Rightarrow> Some (10 * v + d)))"
  by (induction xs arbitrary: acc) (simp_all split: option.splits)

lemma digit_val_digit: "d < 10 \<Longrightarrow> digit_val (char_of (48 + d)) = Some d"
  by (simp add: digit_val_def)

lemma dec_digits_show_nat: "dec_digits 0 (show_nat n) = Some n"
proof (induction n rule: show_nat.induct)
  case (1 n)
  show ?case
  proof (cases "n < 10")
    case True
    then show ?thesis
      using digit_val_digit[of n] by (subst show_nat.simps) simp
  next
    case False
    have d: "digit_val (char_of (48 + n mod 10)) = Some (n mod 10)"
      by (rule digit_val_digit) simp
    from False 1 have "dec_digits 0 (show_nat (n div 10)) = Some (n div 10)" by simp
    then show ?thesis
      using False d by (subst show_nat.simps) (simp add: dec_digits_snoc)
  qed
qed

lemma parse_xsd_written_atoms:
  assumes "parse_xsd P root (init P) = Inr (self, n)"
  shows "write_atoms P (self, out) =
           Inr (self, out @ [''Atoms\<newline>'', ''\<newline>''] @
                      map (\<lambda>kv. atom_text P (fst kv) (snd kv)) (atoms self) @ [''\<newline>'']) \<and>
         (\<exists>pre post. write_lammps_data P (self, []) =
           Inr (self, pre @ [''Atoms\<newline>'', ''\<newline>''] @
                      map (\<lambda>kv. atom_text P (fst kv) (snd kv)) (atoms self) @ [''\<newline>''] @ post))"
proof -
  let ?es = "find_elements ''Atom3d'' root"
  from parse_xsd_atoms[OF assms] have
    a: "atoms self =
           map (\<lambda>(j, e). (j, final_atom P e (map_of (atom_types self) (elem_key e)))) (enumerate 1 ?es)"
    by simp
  have keys: "map fst (atoms self) = [1..<1 + length ?es]"
  proof -
    have "map fst (atoms self) = map fst
       (map (\<lambda>(j, e). (j, final_atom P e (map_of (atom_types self) (elem_key e)))) (enumerate 1 ?es))"
      using a by simp
    also have "\<dots> = [1..<1 + length ?es]" by (rule map_fst_final)
    finally show ?thesis .
  qed
  have rows: "map (\<lambda>idx. atom_text P idx (the (map_of (atoms self) idx))) (sort (map fst (atoms self))) =
      map (\<lambda>kv. atom_text P (fst kv) (snd kv)) (atoms self)"
    by (rule rows_sorted_keys) (simp_all add: keys del: upt_Suc)
  have w: "write_atoms P (self, out) =
           Inr (self, out @ [''Atoms\<newline>'', ''\<newline>''] @
                      map (\<lambda>kv. atom_text P (fst kv) (snd kv)) (atoms self) @ [''\<newline>''])"
    using emitsD[OF emits_atoms, of P self out] by (simp add: rows)
  define pre where "pre =
       (header_lines P self @ box_lines P self @ [''\<newline>'', ''Masses\<newline>'', ''\<newline>'']) @
       (map (\<lambda>ff. show_nat (the (map_of (atom_types self) ff)) @ '' '' @ mass_text ff @
                        ''  # '' @ ff @ ''\<newline>'')
               (keys_by_value (atom_types self)) @ [''\<newline>'']) @
       (if bond_types self \<noteq> [] then
        [''# Bond Types Reference:\<newline>''] @ map bond_type_row (sort_key snd (bond_types self)) @
        [''\<newline>''] else [])"
  define post where "post =
       (if bonds self \<noteq> [] then
        [''Bonds\<newline>'', ''\<newline>''] @ map bond_row (bonds self) @ [''\<newline>''] else [])"
  have full: "write_lammps_data P (self, []) =
           Inr (self, pre @ [''Atoms\<newline>'', ''\<newline>''] @
                      map (\<lambda>kv. atom_text P (fst kv) (snd kv)) (atoms self) @ [''\<newline>''] @ post)"
    unfolding write_lammps_data_lines rows pre_def post_def by simp
  from w full show ?thesis by (intro conjI exI)
qed

lemma parse_xsd_typed:
  assumes "parse_xsd P root (init P) = Inr (self, n)"
  shows "\<forall>kv\<in>set (atoms self). \<exists>t. atom_type (snd kv) = Some t"
proof
  let ?es = "find_elements ''Atom3d'' root"
  from parse_xsd_atoms[OF assms] have
    a: "atoms self =
           map (\<lambda>(j, e). (j, final_atom P e (map_of (atom_types self) (elem_key e)))) (enumerate 1 ?es)"
    and t: "(atom_types self, atom_type_counter self) = table_of (first_seen (map elem_key ?es))"
    by simp_all
  fix kv assume "kv \<in> set (atoms self)"
  then obtain j e where kv: "kv = (j, final_atom P e (map_of (atom_types self) (elem_key e)))"
    and e: "e \<in> set ?es"
    by (subst (asm) a) (auto simp: in_set_enumerate_eq)
  have "elem_key e \<in> set (first_seen (map elem_key ?es))"
    using e by (simp add: set_first_seen)
  then have "elem_key e \<in> fst ` set (atom_types self)"
    using table_of_eq[OF t] by (metis set_map)
  then have "map_of (atom_types self) (elem_key e) \<noteq> None"
    by (simp add: map_of_eq_None_iff)
  then show "\<exists>t. atom_type (snd kv) = Some t"
    by (simp add: kv final_atom_sel)
qed

lemma atom_text_unfold:
  "atom_text P i a =
     show_nat i @ '' 1 '' @ (case atom_type a of None \<Rightarrow> ''None'' | Some t \<Rightarrow> show_nat t) @ '' '' @
     f_fmt P 6 (charge a) @ '' '' @ f_fmt P 8 (atom_x a) @ '' '' @
     f_fmt P 8 (atom_y a) @ '' '' @ f_fmt P 8 (atom_z a) @ ''\<newline>''"
  by (simp add: atom_text_def show_type_def)

subsection \<open>The lines of the box\<close>




subsection \<open>The rows of atoms at the origin\<close>

lemma parse_xsd_keys:
  assumes "parse_xsd P root (init P) = Inr (self, n)"
  shows "map fst (atoms self) = [1..<Suc n] \<and> length (atoms self) = n"
proof -
  let ?es = "find_elements ''Atom3d'' root"
  from parse_xsd_atoms[OF assms] have
    a: "atoms self =
           map (\<lambda>(j, e). (j, final_atom P e (map_of (atom_types self) (elem_key e)))) (enumerate 1 ?es)"
    and n: "n = length ?es"
    by simp_all
  have "map fst (atoms self) = map fst
       (map (\<lambda>(j, e). (j, final_atom P e (map_of (atom_types self) (elem_key e)))) (enumerate 1 ?es))"
    using a by simp
  also have "\<dots> = [1..<1 + length ?es]" by (rule map_fst_final)
  finally have k: "map fst (atoms self) = [1..<Suc n]" by (simp add: n del: upt_Suc)
  then have "length (map fst (atoms self)) = length [1..<Suc n]" by (rule arg_cong)
  then have "length (atoms self) = n" by (simp del: upt_Suc)
  with k show ?thesis by (rule conjI)
qed

lemma parse_xsd_origin_rows:
  assumes p: "parse_xsd P root (init P) = Inr (self, n)"
  shows "\<exists>pre post rows.
     write_lammps_data P (self, []) =
       Inr (self, pre @ [''Atoms\<newline>'', ''\<newline>''] @ rows @ [''\<newline>''] @ post) \<and>
     length rows = n \<and>
     (\<forall>k<n. \<not> (\<exists>x y z. map (p_float P)
                  (split_on CHR '','' (get_default (find_elements ''Atom3d'' root ! k) ''XYZ'' ''0,0,0'')) =
                  [Some x, Some y, Some z]) \<longrightarrow>
        rows ! k =
          show_nat (Suc k) @ '' 1 '' @
          (case atom_type (snd (atoms self ! k)) of None \<Rightarrow> ''None'' | Some t \<Rightarrow> show_nat t) @ '' '' @
          f_fmt P 6 (charge (snd (atoms self ! k))) @ '' '' @
          f_fmt P 8 (f_zero P) @ '' '' @ f_fmt P 8 (f_zero P) @ '' '' @ f_fmt P 8 (f_zero P) @
          ''\<newline>'')"
proof -
  let ?es = "find_elements ''Atom3d'' root"
  let ?row = "\<lambda>kv::nat \<times> 'a atom. show_nat (fst kv) @ '' 1 '' @
                        (case atom_type (snd kv) of None \<Rightarrow> ''None'' | Some t \<Rightarrow> show_nat t) @ '' '' @
                        f_fmt P 6 (charge (snd kv)) @ '' '' @ f_fmt P 8 (atom_x (snd kv)) @ '' '' @
                        f_fmt P 8 (atom_y (snd kv)) @ '' '' @ f_fmt P 8 (atom_z (snd kv)) @ ''\<newline>''"
  note wr = parse_xsd_written_atoms[OF p, of "[]", unfolded atom_text_unfold]
  from wr[THEN conjunct2] obtain pre post where
    full: "write_lammps_data P (self, []) =
       Inr (self, pre @ [''Atoms\<newline>'', ''\<newline>''] @ map ?row (atoms self) @ [''\<newline>''] @ post)"
    by (elim exE)
  from parse_xsd_keys[OF p] have keys: "map fst (atoms self) = [1..<Suc n]"
    and len: "length (atoms self) = n"
    by simp_all
  from parse_xsd_atoms[OF p] have n: "n = length ?es" by simp
  note pos = parse_xsd_positions[OF p]
  have each: "map ?row (atoms self) ! k =
          show_nat (Suc k) @ '' 1 '' @
          (case atom_type (snd (atoms self ! k)) of None \<Rightarrow> ''None'' | Some t \<Rightarrow> show_nat t) @ '' '' @
          f_fmt P 6 (charge (snd (atoms self ! k))) @ '' '' @
          f_fmt P 8 (f_zero P) @ '' '' @ f_fmt P 8 (f_zero P) @ '' '' @ f_fmt P 8 (f_zero P) @
          ''\<newline>''"
    if k: "k < n"
      and bad: "\<not> (\<exists>x y z. map (p_float P)
                  (split_on CHR '','' (get_default (?es ! k) ''XYZ'' ''0,0,0'')) =
                  [Some x, Some y, Some z])"
    for k
  proof -
    have "fst (atoms self ! k) = map fst (atoms self) ! k"
      using k len by simp
    also have "\<dots> = Suc k" unfolding keys using k by (simp del: upt_Suc)
    finally have f: "fst (atoms self ! k) = Suc k" .
    have "(atom_x (snd (atoms self ! k)), atom_y (snd (atoms self ! k)), atom_z (snd (atoms self ! k))) =
        map (\<lambda>kv. (atom_x (snd kv), atom_y (snd kv), atom_z (snd kv))) (atoms self) ! k"
      using k len by simp
    also have "\<dots> = map (\<lambda>e. parse_xyz P (get_default e ''XYZ'' ''0,0,0'')) ?es ! k"
      by (simp only: pos)
    also have "\<dots> = parse_xyz P (get_default (?es ! k) ''XYZ'' ''0,0,0'')"
      using k n by simp
    also have "\<dots> = (f_zero P, f_zero P, f_zero P)"
      using bad by (rule parse_xyz_default)
    finally have z: "atom_x (snd (atoms self ! k)) = f_zero P"
      "atom_y (snd (atoms self ! k)) = f_zero P" "atom_z (snd (atoms self ! k)) = f_zero P"
      by simp_all
    have "map ?row (atoms self) ! k = ?row (atoms self ! k)"
      using k len by simp
    then show ?thesis by (simp only: f z)
  qed
  have l: "length (map ?row (atoms self)) = n" using len by simp
  from full l each show ?thesis
    by (intro exI[of _ pre] exI[of _ post] exI[of _ "map ?row (atoms self)"] conjI allI impI)
qed

subsection \<open>The two atoms and one bond, by the encoding of the element symbols\<close>

text \<open>
  With the element symbols given as \<open>Components\<close> attributes, the document of two atoms
  (source IDs 5 and 9, elements C and H) and one single bond gives two atoms with the dense
  indices 1 and 2, the atom types C (1) and H (2), one bond, the one bond type keyed
  \<open>(C, H, Single)\<close> and the Bonds row \<open>1 1 1 2\<close>, which ends the file.
\<close>

lemma round_trip_attributes:
  assumes "p_int P ''5'' = Some 5" "p_int P ''9'' = Some 9"
  shows "\<exists>self. parse_xsd P doc_CH (init P) = Inr (self, 2) \<and>
      map fst (atoms self) = [1, 2] \<and>
      map (\<lambda>kv. element (snd kv)) (atoms self) = [''C'', ''H''] \<and>
      map (\<lambda>kv. atom_type (snd kv)) (atoms self) = [Some 1, Some 2] \<and>
      atom_types self = [(''C'', 1), (''H'', 2)] \<and>
      length (bonds self) = 1 \<and>
      bond_types self = [((''C'', ''H'', ''Single''), 1)] \<and>
      map bond_row (bonds self) = [''1 1 1 2\<newline>''] \<and>
      (\<exists>pre. write_lammps_data P (self, []) =
         Inr (self, pre @ [''Bonds\<newline>'', ''\<newline>'', ''1 1 1 2\<newline>'', ''\<newline>'']))"
proof -
  from round_trip_parse[OF assms] obtain self where
    p: "parse_xsd P doc_CH (init P) = Inr (self, 2)"
    and a: "map fst (atoms self) = [1, 2]"
      "map (\<lambda>kv. element (snd kv)) (atoms self) = [''C'', ''H'']"
      "map (\<lambda>kv. atom_type (snd kv)) (atoms self) = [Some 1, Some 2]"
      "atom_types self = [(''C'', 1), (''H'', 2)]"
    and bt: "bond_types self = [((''C'', ''H'', ''Single''), 1)]"
    and b: "bonds self = [\<lparr>bond_id = 1, bond_type = 1, atom1 = 1, atom2 = 2,
                      bond_order = ''Single'', bond_elements = (''C'', ''H'', ''Single'')\<rparr>]"
    by (elim exE conjE)
  from b have len: "length (bonds self) = 1" by simp
  have rows: "map bond_row (bonds self) = [''1 1 1 2\<newline>'']"
    by (simp only: b list.map bond_row_1112)
  from b have ne: "bonds self \<noteq> []" by simp
  from write_bonds_last[OF ne, of P] obtain pre where
    "write_lammps_data P (self, []) =
       Inr (self, pre @ [''Bonds\<newline>'', ''\<newline>''] @ map bond_row (bonds self) @ [''\<newline>''])"
    by (elim exE)
  then have "write_lammps_data P (self, []) =
         Inr (self, pre @ [''Bonds\<newline>'', ''\<newline>'', ''1 1 1 2\<newline>'', ''\<newline>''])"
    by (simp only: rows append.simps)
  then have w: "\<exists>pre. write_lammps_data P (self, []) =
         Inr (self, pre @ [''Bonds\<newline>'', ''\<newline>'', ''1 1 1 2\<newline>'', ''\<newline>''])"
    by (rule exI[where x = pre])
  from p a len bt rows w show ?thesis by (intro exI[of _ self] conjI)
qed

text \<open>
  The same holds of the parse with the symbols given as the text of \<open>Components\<close> children
  in the declared namespace: the second lookup of line 61 finds them.
\<close>

lemma round_trip_namespaced:
  assumes "p_int P ''5'' = Some 5" "p_int P ''9'' = Some 9"
  shows "\<exists>self. parse_xsd P doc_CH_namespaced (init P) = Inr (self, 2) \<and>
      map fst (atoms self) = [1, 2] \<and>
      map (\<lambda>kv. element (snd kv)) (atoms self) = [''C'', ''H''] \<and>
      map (\<lambda>kv. atom_type (snd kv)) (atoms self) = [Some 1, Some 2] \<and>
      atom_types self = [(''C'', 1), (''H'', 2)] \<and>
      bond_types self = [((''C'', ''H'', ''Single''), 1)] \<and>
      bonds self = [\<lparr>bond_id = 1, bond_type = 1, atom1 = 1, atom2 = 2, bond_order = ''Single'',
                      bond_elements = (''C'', ''H'', ''Single'')\<rparr>]"
proof -
  obtain x y z where xyz: "parse_xyz P ''0,0,0'' = (x, y, z)"
    by (cases "parse_xyz P ''0,0,0''") auto
  show ?thesis
    using assms xyz by (simp add: eval_defs doc_CH_namespaced_def truthy_def)
qed

text \<open>
  With the symbols given as the text of plain-named \<open>Components\<close> children the first
  lookup of line 61 finds the child, its truth value is false, the second lookup finds
  nothing, and the attribute's default \<open>X\<close> is taken for both atoms.
\<close>

lemma round_trip_children_parse:
  assumes "p_int P ''5'' = Some 5" "p_int P ''9'' = Some 9"
  shows "\<exists>self. parse_xsd P doc_CH_children (init P) = Inr (self, 2) \<and>
      map fst (atoms self) = [1, 2] \<and>
      map (\<lambda>kv. element (snd kv)) (atoms self) = [''X'', ''X''] \<and>
      map (\<lambda>kv. atom_type (snd kv)) (atoms self) = [Some 1, Some 1] \<and>
      atom_types self = [(''X'', 1)] \<and>
      bond_types self = [((''X'', ''X'', ''Single''), 1)] \<and>
      bonds self = [\<lparr>bond_id = 1, bond_type = 1, atom1 = 1, atom2 = 2, bond_order = ''Single'',
                      bond_elements = (''X'', ''X'', ''Single'')\<rparr>]"
proof -
  obtain x y z where xyz: "parse_xyz P ''0,0,0'' = (x, y, z)"
    by (cases "parse_xyz P ''0,0,0''") auto
  show ?thesis
    using assms xyz by (simp add: eval_defs doc_CH_children_def truthy_def)
qed

lemma bond_row_XX:
  "bond_row \<lparr>bond_id = 1, bond_type = 1, atom1 = 1, atom2 = 2, bond_order = ''Single'',
             bond_elements = (''X'', ''X'', ''Single'')\<rparr> = ''1 1 1 2\<newline>''"
  by code_simp

section \<open>The claims\<close>

subsection \<open>C1: two atoms and one bond\<close>

text \<open>
  C1. The document is two \<open>Atom3d\<close> elements with source IDs 5 and 9, whose elements C and
  H are the text of plain-named \<open>Components\<close> children, and one \<open>Bond\<close> element with
  \<open>Connects="5,9"\<close> and \<open>Type="Single"\<close>; \<open>int\<close> reads \<open>5\<close> and \<open>9\<close> as these numbers.
  Parsing it on a fresh object returns 2 and leaves two atoms with the dense indices 1 and 2
  and one bond, and the Bonds section of the written file, which ends the file, is its title,
  a blank line, the row \<open>1 1 1 2\<close> and a blank line, all as the claim has it. But both atoms
  get the element \<open>X\<close>: there is one atom type, \<open>X\<close> (1), where the claim has one for C and
  one for H, and the one bond type is keyed \<open>(X, X, Single)\<close>, where the claim has
  \<open>(C, H, Single)\<close>. Line 61 passes the childless \<open>Components\<close> child over; the same
  document with the symbols as attributes, or as children in the declared namespace, gives
  what the claim says (lemmas \<open>round_trip_attributes\<close> and \<open>round_trip_namespaced\<close>).
\<close>

theorem round_trip_plain_children:
  assumes "p_int P ''5'' = Some 5" "p_int P ''9'' = Some 9"
  shows "\<exists>self. parse_xsd P doc_CH_children (init P) = Inr (self, 2) \<and>
      map fst (atoms self) = [1, 2] \<and>
      map (\<lambda>kv. element (snd kv)) (atoms self) = [''X'', ''X''] \<and>
      map (\<lambda>kv. atom_type (snd kv)) (atoms self) = [Some 1, Some 1] \<and>
      atom_types self = [(''X'', 1)] \<and>
      length (bonds self) = 1 \<and>
      bond_types self = [((''X'', ''X'', ''Single''), 1)] \<and>
      map bond_row (bonds self) = [''1 1 1 2\<newline>''] \<and>
      (\<exists>pre. write_lammps_data P (self, []) =
         Inr (self, pre @ [''Bonds\<newline>'', ''\<newline>'', ''1 1 1 2\<newline>'', ''\<newline>'']))"
proof -
  from round_trip_children_parse[OF assms] obtain self where
    p: "parse_xsd P doc_CH_children (init P) = Inr (self, 2)"
    and a: "map fst (atoms self) = [1, 2]"
      "map (\<lambda>kv. element (snd kv)) (atoms self) = [''X'', ''X'']"
      "map (\<lambda>kv. atom_type (snd kv)) (atoms self) = [Some 1, Some 1]"
      "atom_types self = [(''X'', 1)]"
    and bt: "bond_types self = [((''X'', ''X'', ''Single''), 1)]"
    and b: "bonds self = [\<lparr>bond_id = 1, bond_type = 1, atom1 = 1, atom2 = 2,
                      bond_order = ''Single'', bond_elements = (''X'', ''X'', ''Single'')\<rparr>]"
    by (elim exE conjE)
  from b have len: "length (bonds self) = 1" by simp
  have rows: "map bond_row (bonds self) = [''1 1 1 2\<newline>'']"
    by (simp only: b list.map bond_row_XX)
  from b have ne: "bonds self \<noteq> []" by simp
  from write_bonds_last[OF ne, of P] obtain pre where
    "write_lammps_data P (self, []) =
       Inr (self, pre @ [''Bonds\<newline>'', ''\<newline>''] @ map bond_row (bonds self) @ [''\<newline>''])"
    by (elim exE)
  then have "write_lammps_data P (self, []) =
         Inr (self, pre @ [''Bonds\<newline>'', ''\<newline>'', ''1 1 1 2\<newline>'', ''\<newline>''])"
    by (simp only: rows append.simps)
  then have w: "\<exists>pre. write_lammps_data P (self, []) =
         Inr (self, pre @ [''Bonds\<newline>'', ''\<newline>'', ''1 1 1 2\<newline>'', ''\<newline>''])"
    by (rule exI[where x = pre])
  from p a len bt rows w show ?thesis by (intro exI[of _ self] conjI)
qed

theorem round_trip_plain_children_witness:
  "p_int whole_floats ''5'' = Some 5 \<and> p_int whole_floats ''9'' = Some 9 \<and>
   (\<exists>self. parse_xsd whole_floats doc_CH_children (init whole_floats) = Inr (self, 2) \<and>
      map fst (atoms self) = [1, 2] \<and>
      map (\<lambda>kv. element (snd kv)) (atoms self) = [''X'', ''X''] \<and>
      atom_types self = [(''X'', 1)] \<and>
      bond_types self = [((''X'', ''X'', ''Single''), 1)] \<and>
      map bond_row (bonds self) = [''1 1 1 2\<newline>''])"
proof -
  have h: "p_int whole_floats ''5'' = Some 5" "p_int whole_floats ''9'' = Some 9"
    by code_simp+
  from round_trip_plain_children[OF h] obtain self where
    "parse_xsd whole_floats doc_CH_children (init whole_floats) = Inr (self, 2)"
    "map fst (atoms self) = [1, 2]"
    "map (\<lambda>kv. element (snd kv)) (atoms self) = [''X'', ''X'']"
    "atom_types self = [(''X'', 1)]"
    "bond_types self = [((''X'', ''X'', ''Single''), 1)]"
    "map bond_row (bonds self) = [''1 1 1 2\<newline>'']"
    by (elim exE conjE)
  with h show ?thesis by (intro conjI exI[of _ self])
qed

subsection \<open>C2: the element symbol of an atom\<close>

text \<open>
  C2, as stated, fails: an atom element with a \<open>Components\<close> child found by the lookup whose
  text is empty gets the symbol \<open>X\<close> even when it carries a \<open>Components\<close> attribute; the
  attribute is read only when no child is found.
\<close>

theorem empty_child_counterexample:
  "get_element atom_empty_child = ''X'' \<and> claimed_element atom_empty_child = ''C''"
  by (simp add: atom_empty_child_def element_defs)

text \<open>
  C2, amended. The atom element has no plain-named \<open>Components\<close> descendant, or the first
  one has child elements. The lookup finds that descendant or, when there is none, the first
  namespace-qualified \<open>Components\<close> child. When it finds an element, the symbol is its text if
  this is not empty and \<open>X\<close> otherwise; when it finds none, the symbol is the value of the
  \<open>Components\<close> attribute if the atom element has one and \<open>X\<close> otherwise.
\<close>

theorem element_resolution:
  assumes "\<forall>c. find_first (findall_desc ''Components'' atom_elem) = Some c \<longrightarrow> children c \<noteq> []"
  shows "get_element atom_elem =
     (case (case find_first (findall_desc ''Components'' atom_elem) of
              Some c \<Rightarrow> Some c
            | None \<Rightarrow> find_first (findall_child (accelrys ''Components'') atom_elem)) of
        Some c \<Rightarrow> (case elem_text c of None \<Rightarrow> ''X'' | Some t \<Rightarrow> if t \<noteq> [] then t else ''X'')
      | None \<Rightarrow> (case attrib atom_elem ''Components'' of None \<Rightarrow> ''X'' | Some v \<Rightarrow> v))"
  using assms
  by (auto simp: get_element_def components_elem_def elem_or_def truthy_def get_default_def
      split: option.splits)

theorem element_resolution_witness:
  "get_element atom_child_N = ''N'' \<and> get_element atom_empty_child = ''X'' \<and>
   get_element (atom3d [(''ID'', ''5''), (''Components'', ''C'')] []) = ''C'' \<and>
   get_element (atom3d [(''ID'', ''5'')] []) = ''X''"
proof -
  have h: "\<forall>c. find_first (findall_desc ''Components'' atom_child_N) = Some c \<longrightarrow> children c \<noteq> []"
    "\<forall>c. find_first (findall_desc ''Components'' atom_empty_child) = Some c \<longrightarrow> children c \<noteq> []"
    "\<forall>c. find_first (findall_desc ''Components'' (atom3d [(''ID'', ''5''), (''Components'', ''C'')] [])) = Some c
        \<longrightarrow> children c \<noteq> []"
    "\<forall>c. find_first (findall_desc ''Components'' (atom3d [(''ID'', ''5'')] [])) = Some c
        \<longrightarrow> children c \<noteq> []"
    by (simp_all add: atom_child_N_def atom_empty_child_def atom3d_def element_defs)
  from element_resolution[OF h(1)] have a: "get_element atom_child_N = ''N''"
    by (simp add: atom_child_N_def element_defs)
  from element_resolution[OF h(2)] have b: "get_element atom_empty_child = ''X''"
    by (simp add: atom_empty_child_def element_defs)
  from element_resolution[OF h(3)]
  have c: "get_element (atom3d [(''ID'', ''5''), (''Components'', ''C'')] []) = ''C''"
    by (simp add: atom3d_def element_defs)
  from element_resolution[OF h(4)] have d: "get_element (atom3d [(''ID'', ''5'')] []) = ''X''"
    by (simp add: atom3d_def element_defs)
  from a b c d show ?thesis by (intro conjI)
qed

subsection \<open>C3: dense atom indices and the rows of the Atoms section\<close>

text \<open>
  C3. After a successful parse of a document with \<open>n\<close> atom elements (the returned count is
  \<open>n\<close>), the keys of \<open>atoms\<close> are \<open>1, 2, ..., n\<close> in this order, the \<open>k\<close>-th of them
  belonging to the \<open>k\<close>-th atom element of the document whatever the source IDs are. The
  Atoms section of the written file is its title, a blank line, one row per atom in that
  order and a blank line. The row of an atom is the text of its dense index, the molecule ID
  \<open>1\<close>, its atom type (every atom has one), its charge with six decimals and its three
  coordinates with eight, separated by single spaces. The text of an index is its decimal
  numeral: reading it digit by digit gives the index back.
\<close>

theorem dense_atom_indices:
  assumes "parse_xsd P root (init P) = Inr (self, n)"
  shows "n = length (find_elements ''Atom3d'' root) \<and>
         map fst (atoms self) = [1..<Suc n] \<and>
         map (\<lambda>kv. Some (atom_id (snd kv))) (atoms self) =
           map (\<lambda>e. attrib e ''ID'') (find_elements ''Atom3d'' root) \<and>
         write_atoms P (self, out) =
           Inr (self, out @ [''Atoms\<newline>'', ''\<newline>''] @
             map (\<lambda>kv. show_nat (fst kv) @ '' 1 '' @
                        (case atom_type (snd kv) of None \<Rightarrow> ''None'' | Some t \<Rightarrow> show_nat t) @ '' '' @
                        f_fmt P 6 (charge (snd kv)) @ '' '' @ f_fmt P 8 (atom_x (snd kv)) @ '' '' @
                        f_fmt P 8 (atom_y (snd kv)) @ '' '' @ f_fmt P 8 (atom_z (snd kv)) @ ''\<newline>'')
                 (atoms self) @
             [''\<newline>'']) \<and>
         (\<exists>pre post. write_lammps_data P (self, []) =
           Inr (self, pre @ [''Atoms\<newline>'', ''\<newline>''] @
             map (\<lambda>kv. show_nat (fst kv) @ '' 1 '' @
                        (case atom_type (snd kv) of None \<Rightarrow> ''None'' | Some t \<Rightarrow> show_nat t) @ '' '' @
                        f_fmt P 6 (charge (snd kv)) @ '' '' @ f_fmt P 8 (atom_x (snd kv)) @ '' '' @
                        f_fmt P 8 (atom_y (snd kv)) @ '' '' @ f_fmt P 8 (atom_z (snd kv)) @ ''\<newline>'')
                 (atoms self) @
             [''\<newline>''] @ post)) \<and>
         (\<forall>kv\<in>set (atoms self). \<exists>t. atom_type (snd kv) = Some t) \<and>
         (\<forall>k. dec_digits 0 (show_nat k) = Some k)"
proof -
  let ?es = "find_elements ''Atom3d'' root"
  from parse_xsd_atoms[OF assms] have
    a: "atoms self =
           map (\<lambda>(j, e). (j, final_atom P e (map_of (atom_types self) (elem_key e)))) (enumerate 1 ?es)"
    and ok: "\<forall>e\<in>set ?es. atom_ok P e" and n: "n = length ?es"
    by simp_all
  have keys: "map fst (atoms self) = [1..<Suc n]"
  proof -
    have "map fst (atoms self) = map fst
       (map (\<lambda>(j, e). (j, final_atom P e (map_of (atom_types self) (elem_key e)))) (enumerate 1 ?es))"
      using a by simp
    also have "\<dots> = [1..<1 + length ?es]" by (rule map_fst_final)
    finally show ?thesis by (simp add: n del: upt_Suc)
  qed
  have ids: "map (\<lambda>kv. Some (atom_id (snd kv))) (atoms self) = map (\<lambda>e. attrib e ''ID'') ?es"
  proof -
    have "map (\<lambda>kv. Some (atom_id (snd kv))) (atoms self) =
        map (\<lambda>e. Some (atom_id (final_atom P e (map_of (atom_types self) (elem_key e))))) ?es"
      by (subst a) (rule map_enumerate_final)
    also have "\<dots> = map (\<lambda>e. attrib e ''ID'') ?es"
    proof (rule map_cong[OF refl])
      fix e assume "e \<in> set ?es"
      with ok have "atom_ok P e" by blast
      then show "Some (atom_id (final_atom P e (map_of (atom_types self) (elem_key e)))) = attrib e ''ID''"
        by (auto simp: atom_ok_def final_atom_def split: option.splits prod.splits)
    qed
    finally show ?thesis .
  qed
  note wr = parse_xsd_written_atoms[OF assms, of out, unfolded atom_text_unfold]
  from wr have w: "write_atoms P (self, out) =
           Inr (self, out @ [''Atoms\<newline>'', ''\<newline>''] @
             map (\<lambda>kv. show_nat (fst kv) @ '' 1 '' @
                        (case atom_type (snd kv) of None \<Rightarrow> ''None'' | Some t \<Rightarrow> show_nat t) @ '' '' @
                        f_fmt P 6 (charge (snd kv)) @ '' '' @ f_fmt P 8 (atom_x (snd kv)) @ '' '' @
                        f_fmt P 8 (atom_y (snd kv)) @ '' '' @ f_fmt P 8 (atom_z (snd kv)) @ ''\<newline>'')
                 (atoms self) @
             [''\<newline>''])"
    by (rule conjunct1)
  from wr have full: "\<exists>pre post. write_lammps_data P (self, []) =
           Inr (self, pre @ [''Atoms\<newline>'', ''\<newline>''] @
             map (\<lambda>kv. show_nat (fst kv) @ '' 1 '' @
                        (case atom_type (snd kv) of None \<Rightarrow> ''None'' | Some t \<Rightarrow> show_nat t) @ '' '' @
                        f_fmt P 6 (charge (snd kv)) @ '' '' @ f_fmt P 8 (atom_x (snd kv)) @ '' '' @
                        f_fmt P 8 (atom_y (snd kv)) @ '' '' @ f_fmt P 8 (atom_z (snd kv)) @ ''\<newline>'')
                 (atoms self) @
             [''\<newline>''] @ post)"
    by (rule conjunct2)
  have typed: "\<forall>kv\<in>set (atoms self). \<exists>t. atom_type (snd kv) = Some t"
    using parse_xsd_typed[OF assms] by blast
  have num: "\<forall>k. dec_digits 0 (show_nat k) = Some k"
    by (simp add: dec_digits_show_nat)
  from n keys ids w full typed num show ?thesis by (intro conjI)
qed

theorem dense_atom_indices_witness:
  "\<exists>self. parse_xsd whole_floats doc_CH2 (init whole_floats) = Inr (self, 3) \<and>
      map fst (atoms self) = [1, 2, 3] \<and>
      map (\<lambda>kv. Some (atom_id (snd kv))) (atoms self) = [Some ''7'', Some ''3'', Some ''12''] \<and>
      write_atoms whole_floats (self, []) =
        Inr (self, [''Atoms\<newline>'', ''\<newline>'',
                    ''1 1 1 0.000000 1.00000000 2.00000000 3.00000000\<newline>'',
                    ''2 1 2 0.000000 4.00000000 0.00000000 6.00000000\<newline>'',
                    ''3 1 2 0.000000 0.00000000 0.00000000 0.00000000\<newline>'',
                    ''\<newline>''])"
proof -
  define self where "self = fst (projr (parse_xsd whole_floats doc_CH2 (init whole_floats)))"
  have p: "parse_xsd whole_floats doc_CH2 (init whole_floats) = Inr (self, 3)"
    unfolding self_def by code_simp
  have es: "map (\<lambda>e. attrib e ''ID'') (find_elements ''Atom3d'' doc_CH2) =
      [Some ''7'', Some ''3'', Some ''12'']"
    by code_simp
  have u: "[1..<Suc 3] = [1, 2, 3::nat]" by code_simp
  have r: "map (\<lambda>kv. show_nat (fst kv) @ '' 1 '' @
                        (case atom_type (snd kv) of None \<Rightarrow> ''None'' | Some t \<Rightarrow> show_nat t) @ '' '' @
                        f_fmt whole_floats 6 (charge (snd kv)) @ '' '' @
                        f_fmt whole_floats 8 (atom_x (snd kv)) @ '' '' @
                        f_fmt whole_floats 8 (atom_y (snd kv)) @ '' '' @
                        f_fmt whole_floats 8 (atom_z (snd kv)) @ ''\<newline>'')
                 (atoms self) =
      [''1 1 1 0.000000 1.00000000 2.00000000 3.00000000\<newline>'',
       ''2 1 2 0.000000 4.00000000 0.00000000 6.00000000\<newline>'',
       ''3 1 2 0.000000 0.00000000 0.00000000 0.00000000\<newline>'']"
    unfolding self_def by code_simp
  note t = dense_atom_indices[OF p, of "[]"]
  note k0 = t[THEN conjunct2, THEN conjunct1]
  note i0 = t[THEN conjunct2, THEN conjunct2, THEN conjunct1]
  note w0 = t[THEN conjunct2, THEN conjunct2, THEN conjunct2, THEN conjunct1]
  from k0 have k: "map fst (atoms self) = [1, 2, 3]"
    by (simp only: u)
  from i0 have i: "map (\<lambda>kv. Some (atom_id (snd kv))) (atoms self) =
      [Some ''7'', Some ''3'', Some ''12'']"
    by (simp only: es)
  from w0[unfolded r] have w: "write_atoms whole_floats (self, []) =
        Inr (self, [''Atoms\<newline>'', ''\<newline>'',
                    ''1 1 1 0.000000 1.00000000 2.00000000 3.00000000\<newline>'',
                    ''2 1 2 0.000000 4.00000000 0.00000000 6.00000000\<newline>'',
                    ''3 1 2 0.000000 0.00000000 0.00000000 0.00000000\<newline>'',
                    ''\<newline>''])"
    by (simp only: append.simps)
  from p k i w show ?thesis by (intro exI[of _ self] conjI)
qed

subsection \<open>C4: the two interning tables\<close>

text \<open>
  C4. After a successful parse, the keys of \<open>atom_types\<close> are the type keys of the atoms in
  order of first appearance and their values are \<open>1, 2, ...\<close> in that order, the counter being
  the number of entries; every atom carries the integer the final table gives its key, so a key
  seen again gets the integer it got first. The type key of an atom is its force-field label,
  or its element symbol when the label is absent, empty or \<open>unknown\<close>. The same holds for
  \<open>bond_types\<close> and the keys of the accepted bonds. Interning a key a second time changes
  nothing.
\<close>

theorem type_interning:
  assumes "parse_xsd P root (init P) = Inr (self, n)"
  shows
    "map fst (atom_types self) =
       first_seen (map (\<lambda>kv. atom_type_key (forcefield_type (snd kv)) (element (snd kv))) (atoms self)) \<and>
     map snd (atom_types self) = [1..<Suc (length (atom_types self))] \<and>
     atom_type_counter self = length (atom_types self) \<and>
     (\<forall>kv\<in>set (atoms self).
        atom_type (snd kv) =
          map_of (atom_types self) (atom_type_key (forcefield_type (snd kv)) (element (snd kv))) \<and>
        atom_type (snd kv) \<noteq> None) \<and>
     map (\<lambda>kv. type_key (snd kv)) (atoms self) =
       map (\<lambda>e. Some (case attrib e ''ForcefieldType'' of
                         None \<Rightarrow> get_element e
                       | Some ff \<Rightarrow> if ff = [] \<or> ff = ''unknown'' then get_element e else ff))
           (find_elements ''Atom3d'' root) \<and>
     map (\<lambda>kv. type_key (snd kv)) (atoms self) =
       map (\<lambda>kv. Some (atom_type_key (forcefield_type (snd kv)) (element (snd kv)))) (atoms self) \<and>
     map fst (bond_types self) = first_seen (map bond_elements (bonds self)) \<and>
     map snd (bond_types self) = [1..<Suc (length (bond_types self))] \<and>
     bond_type_counter self = length (bond_types self) \<and>
     (\<forall>b\<in>set (bonds self). map_of (bond_types self) (bond_elements b) = Some (bond_type b)) \<and>
     (\<forall>k tc. intern k (intern k tc) = (intern k tc :: (string \<times> nat) list \<times> nat)) \<and>
     (\<forall>k tc. intern k (intern k tc) = (intern k tc :: ((string \<times> string \<times> string) \<times> nat) list \<times> nat))"
proof -
  let ?es = "find_elements ''Atom3d'' root"
  let ?key = "\<lambda>kv::nat \<times> 'a atom. atom_type_key (forcefield_type (snd kv)) (element (snd kv))"
  from parse_xsd_atoms[OF assms] have
    a: "atoms self =
           map (\<lambda>(j, e). (j, final_atom P e (map_of (atom_types self) (elem_key e)))) (enumerate 1 ?es)"
    and t: "(atom_types self, atom_type_counter self) = table_of (first_seen (map elem_key ?es))"
    by simp_all
  have keys: "map ?key (atoms self) = map elem_key ?es"
  proof -
    have "map ?key (atoms self) =
        map (\<lambda>e. atom_type_key (forcefield_type (final_atom P e (map_of (atom_types self) (elem_key e))))
                    (element (final_atom P e (map_of (atom_types self) (elem_key e))))) ?es"
      by (subst a) (rule map_enumerate_final)
    then show ?thesis by (simp add: final_atom_sel elem_key_def)
  qed
  have c1: "map fst (atom_types self) = first_seen (map ?key (atoms self))"
    and c1': "map snd (atom_types self) = [1..<Suc (length (atom_types self))]"
    and c2: "atom_type_counter self = length (atom_types self)"
    using table_of_eq[OF t] by (simp_all add: keys del: upt_Suc)
  have tk: "map (\<lambda>kv. type_key (snd kv)) (atoms self) = map (\<lambda>e. Some (elem_key e)) ?es"
  proof -
    have "map (\<lambda>kv. type_key (snd kv)) (atoms self) =
        map (\<lambda>e. type_key (final_atom P e (map_of (atom_types self) (elem_key e)))) ?es"
      by (subst a) (rule map_enumerate_final)
    then show ?thesis by (simp add: final_atom_sel)
  qed
  have c4: "map (\<lambda>kv. type_key (snd kv)) (atoms self) =
       map (\<lambda>e. Some (case attrib e ''ForcefieldType'' of
                         None \<Rightarrow> get_element e
                       | Some ff \<Rightarrow> if ff = [] \<or> ff = ''unknown'' then get_element e else ff)) ?es"
    using tk by (simp add: elem_key_rule)
  have c5: "map (\<lambda>kv. type_key (snd kv)) (atoms self) = map (\<lambda>kv. Some (?key kv)) (atoms self)"
  proof -
    have "map (\<lambda>kv. Some (?key kv)) (atoms self) = map Some (map ?key (atoms self))" by simp
    also have "\<dots> = map (\<lambda>e. Some (elem_key e)) ?es" by (simp add: keys)
    finally show ?thesis using tk by simp
  qed
  have c3: "\<forall>kv\<in>set (atoms self).
        atom_type (snd kv) = map_of (atom_types self) (?key kv) \<and> atom_type (snd kv) \<noteq> None"
  proof
    fix kv assume "kv \<in> set (atoms self)"
    then obtain j e where kv: "kv = (j, final_atom P e (map_of (atom_types self) (elem_key e)))"
      and e: "e \<in> set ?es"
      by (subst (asm) a) (auto simp: in_set_enumerate_eq)
    have "elem_key e \<in> set (first_seen (map elem_key ?es))"
      using e by (simp add: set_first_seen)
    then have "elem_key e \<in> fst ` set (atom_types self)"
      using table_of_eq[OF t] by (metis set_map)
    then have "map_of (atom_types self) (elem_key e) \<noteq> None"
      by (simp add: map_of_eq_None_iff)
    then show "atom_type (snd kv) = map_of (atom_types self) (?key kv) \<and> atom_type (snd kv) \<noteq> None"
      by (simp add: kv final_atom_sel elem_key_def)
  qed
  from parse_xsd_bonds[OF assms] obtain bid processed where inv: "bond_inv (self, bid, processed)"
    by blast
  then have bt: "(bond_types self, bond_type_counter self) =
      table_of (first_seen (map bond_elements (bonds self)))"
    and c8: "\<forall>b\<in>set (bonds self). map_of (bond_types self) (bond_elements b) = Some (bond_type b)"
    by (simp_all add: bond_inv_def)
  have c6: "map fst (bond_types self) = first_seen (map bond_elements (bonds self))"
    and c6': "map snd (bond_types self) = [1..<Suc (length (bond_types self))]"
    and c7: "bond_type_counter self = length (bond_types self)"
    using table_of_eq[OF bt] by (simp_all del: upt_Suc)
  from c1 c1' c2 c3 c4 c5 c6 c6' c7 c8 show ?thesis
    by (intro conjI allI intern_idem)
qed

theorem type_interning_witness:
  "\<exists>self. parse_xsd whole_floats doc_CH2 (init whole_floats) = Inr (self, 3) \<and>
      atom_types self = [(''c3'', 1), (''H'', 2)] \<and>
      map (\<lambda>kv. atom_type (snd kv)) (atoms self) = [Some 1, Some 2, Some 2] \<and>
      map fst (atom_types self) =
        first_seen (map (\<lambda>kv. atom_type_key (forcefield_type (snd kv)) (element (snd kv))) (atoms self)) \<and>
      bond_types self = [((''C'', ''H'', ''Single''), 1)] \<and>
      map fst (bond_types self) = first_seen (map bond_elements (bonds self))"
proof -
  define self where "self = fst (projr (parse_xsd whole_floats doc_CH2 (init whole_floats)))"
  have p: "parse_xsd whole_floats doc_CH2 (init whole_floats) = Inr (self, 3)"
    unfolding self_def by code_simp
  have v: "atom_types self = [(''c3'', 1), (''H'', 2)]"
    "map (\<lambda>kv. atom_type (snd kv)) (atoms self) = [Some 1, Some 2, Some 2]"
    "bond_types self = [((''C'', ''H'', ''Single''), 1)]"
    unfolding self_def by code_simp+
  from type_interning[OF p] have c:
    "map fst (atom_types self) =
        first_seen (map (\<lambda>kv. atom_type_key (forcefield_type (snd kv)) (element (snd kv))) (atoms self))"
    "map fst (bond_types self) = first_seen (map bond_elements (bonds self))"
    by simp_all
  from p v c show ?thesis by (intro exI[of _ self] conjI)
qed

subsection \<open>C5: one bond per pair of atoms\<close>

text \<open>
  C5. After a successful parse no two bonds of the model join the same unordered pair of dense
  indices, however often and in whichever order the document lists a connection; every bond
  stores its smaller endpoint first; its type key is the smaller element symbol of its two
  atoms, the larger one and the bond order, and its type is the integer \<open>bond_types\<close> gives this
  key, so that two bonds with the same key (C-H and H-C of one order) have the same type.
\<close>

theorem bond_deduplication:
  assumes "parse_xsd P root (init P) = Inr (self, n)"
  shows
    "distinct (map (\<lambda>b. {atom1 b, atom2 b}) (bonds self)) \<and>
     (\<forall>b\<in>set (bonds self).
        atom1 b \<le> atom2 b \<and>
        (\<exists>a1 a2. map_of (atoms self) (atom1 b) = Some a1 \<and>
                 map_of (atoms self) (atom2 b) = Some a2 \<and>
                 bond_elements b =
                   (min (element a1) (element a2), max (element a1) (element a2), bond_order b)) \<and>
        map_of (bond_types self) (bond_elements b) = Some (bond_type b)) \<and>
     (\<forall>b\<in>set (bonds self). \<forall>b'\<in>set (bonds self).
        bond_elements b = bond_elements b' \<longrightarrow> bond_type b = bond_type b')"
proof -
  from parse_xsd_bonds[OF assms] obtain bid processed where inv: "bond_inv (self, bid, processed)"
    by blast
  then have dist: "distinct (map (\<lambda>b. (atom1 b, atom2 b)) (bonds self))"
    and each: "\<forall>b\<in>set (bonds self).
           atom1 b \<le> atom2 b \<and>
           map_of (bond_types self) (bond_elements b) = Some (bond_type b) \<and>
           (\<exists>a1 a2. map_of (atoms self) (atom1 b) = Some a1 \<and>
                    map_of (atoms self) (atom2 b) = Some a2 \<and>
                    bond_elements b = bond_key a1 a2 (bond_order b))"
    by (simp_all add: bond_inv_def)
  have "inj_on (\<lambda>p. {fst p, snd p}) (set (map (\<lambda>b. (atom1 b, atom2 b)) (bonds self)))"
  proof (rule inj_onI)
    fix p q
    assume p: "p \<in> set (map (\<lambda>b. (atom1 b, atom2 b)) (bonds self))"
      and q: "q \<in> set (map (\<lambda>b. (atom1 b, atom2 b)) (bonds self))"
      and eq: "{fst p, snd p} = {fst q, snd q}"
    from p each have "fst p \<le> snd p" by auto
    moreover from q each have "fst q \<le> snd q" by auto
    ultimately have "(fst p, snd p) = (fst q, snd q)"
      using eq by (intro sorted_pairs_inj)
    then show "p = q" by (simp add: prod_eq_iff)
  qed
  with dist have "distinct (map (\<lambda>p. {fst p, snd p}) (map (\<lambda>b. (atom1 b, atom2 b)) (bonds self)))"
    by (subst distinct_map) blast
  then have c1: "distinct (map (\<lambda>b. {atom1 b, atom2 b}) (bonds self))"
    by (simp add: comp_def)
  have c2: "\<forall>b\<in>set (bonds self).
        atom1 b \<le> atom2 b \<and>
        (\<exists>a1 a2. map_of (atoms self) (atom1 b) = Some a1 \<and>
                 map_of (atoms self) (atom2 b) = Some a2 \<and>
                 bond_elements b =
                   (min (element a1) (element a2), max (element a1) (element a2), bond_order b)) \<and>
        map_of (bond_types self) (bond_elements b) = Some (bond_type b)"
    using each by (simp add: bond_key_def)
  have c3: "\<forall>b\<in>set (bonds self). \<forall>b'\<in>set (bonds self).
        bond_elements b = bond_elements b' \<longrightarrow> bond_type b = bond_type b'"
  proof (intro ballI impI)
    fix b b' assume "b \<in> set (bonds self)" "b' \<in> set (bonds self)"
      and "bond_elements b = bond_elements b'"
    with each show "bond_type b = bond_type b'" by (metis option.inject)
  qed
  from c1 c2 c3 show ?thesis by (intro conjI)
qed

theorem bond_deduplication_witness:
  "\<exists>self. parse_xsd whole_floats doc_CH2 (init whole_floats) = Inr (self, 3) \<and>
      map (\<lambda>b. (atom1 b, atom2 b)) (bonds self) = [(1, 2), (1, 3)] \<and>
      map bond_elements (bonds self) = [(''C'', ''H'', ''Single''), (''C'', ''H'', ''Single'')] \<and>
      map bond_type (bonds self) = [1, 1] \<and>
      distinct (map (\<lambda>b. {atom1 b, atom2 b}) (bonds self))"
proof -
  define self where "self = fst (projr (parse_xsd whole_floats doc_CH2 (init whole_floats)))"
  have p: "parse_xsd whole_floats doc_CH2 (init whole_floats) = Inr (self, 3)"
    unfolding self_def by code_simp
  have v: "map (\<lambda>b. (atom1 b, atom2 b)) (bonds self) = [(1, 2), (1, 3)]"
    "map bond_elements (bonds self) = [(''C'', ''H'', ''Single''), (''C'', ''H'', ''Single'')]"
    "map bond_type (bonds self) = [1, 1]"
    unfolding self_def by code_simp+
  from bond_deduplication[OF p] have c: "distinct (map (\<lambda>b. {atom1 b, atom2 b}) (bonds self))"
    by simp
  from p v c show ?thesis by (intro exI[of _ self] conjI)
qed

subsection \<open>C6: a bond to an unknown source ID is dropped\<close>



subsection \<open>C7: the padded bounding box\<close>



subsection \<open>C8: coordinates that do not parse\<close>

text \<open>
  C8. An \<open>XYZ\<close> value that is not three comma-separated parts each accepted by \<open>float\<close>
  gives the position \<open>(0.0, 0.0, 0.0)\<close>; \<open>bad,data\<close> is such a value whatever \<open>float\<close>
  accepts. Whether \<open>parse_xsd\<close> succeeds on a fresh object depends on the \<open>ID\<close> and
  \<open>Charge\<close> attributes of the atom elements only, never on \<open>XYZ\<close>. After a successful
  parse every atom element has its atom, at the position read in this way, and the Atoms
  section of the written file has one row per atom element; the row of an atom element whose
  \<open>XYZ\<close> does not parse is its dense index, the molecule ID, its type, its charge and three
  times the text of \<open>0.0\<close> with eight decimals.
\<close>

theorem malformed_xyz_is_origin:
  "parse_xyz P ''bad,data'' = (f_zero P, f_zero P, f_zero P) \<and>
   (\<forall>s. \<not> (\<exists>x y z. map (p_float P) (split_on CHR '','' s) = [Some x, Some y, Some z]) \<longrightarrow>
        parse_xyz P s = (f_zero P, f_zero P, f_zero P)) \<and>
   ((\<exists>r. parse_xsd P root (init P) = Inr r) \<longleftrightarrow>
      (\<forall>e\<in>set (find_elements ''Atom3d'' root).
         (case attrib e ''ID'' of None \<Rightarrow> False | Some aid \<Rightarrow> p_int P aid \<noteq> None) \<and>
         (case attrib e ''Charge'' of None \<Rightarrow> True | Some s \<Rightarrow> p_float P s \<noteq> None))) \<and>
   (\<forall>self n. parse_xsd P root (init P) = Inr (self, n) \<longrightarrow>
      n = length (find_elements ''Atom3d'' root) \<and>
      map (\<lambda>kv. (atom_x (snd kv), atom_y (snd kv), atom_z (snd kv))) (atoms self) =
        map (\<lambda>e. parse_xyz P (get_default e ''XYZ'' ''0,0,0'')) (find_elements ''Atom3d'' root) \<and>
      (\<exists>pre post rows.
         write_lammps_data P (self, []) =
           Inr (self, pre @ [''Atoms\<newline>'', ''\<newline>''] @ rows @ [''\<newline>''] @ post) \<and>
         length rows = n \<and>
         (\<forall>k<n. \<not> (\<exists>x y z. map (p_float P)
                      (split_on CHR '','' (get_default (find_elements ''Atom3d'' root ! k) ''XYZ'' ''0,0,0'')) =
                      [Some x, Some y, Some z]) \<longrightarrow>
            rows ! k =
              show_nat (Suc k) @ '' 1 '' @
              (case atom_type (snd (atoms self ! k)) of None \<Rightarrow> ''None'' | Some t \<Rightarrow> show_nat t) @ '' '' @
              f_fmt P 6 (charge (snd (atoms self ! k))) @ '' '' @
              f_fmt P 8 (f_zero P) @ '' '' @ f_fmt P 8 (f_zero P) @ '' '' @ f_fmt P 8 (f_zero P) @
              ''\<newline>'')))"
proof (intro conjI allI impI)
  show "parse_xyz P ''bad,data'' = (f_zero P, f_zero P, f_zero P)"
    by (rule parse_xyz_bad_data)
next
  fix s assume "\<not> (\<exists>x y z. map (p_float P) (split_on CHR '','' s) = [Some x, Some y, Some z])"
  then show "parse_xyz P s = (f_zero P, f_zero P, f_zero P)"
    by (rule parse_xyz_default)
next
  show "(\<exists>r. parse_xsd P root (init P) = Inr r) \<longleftrightarrow>
      (\<forall>e\<in>set (find_elements ''Atom3d'' root).
         (case attrib e ''ID'' of None \<Rightarrow> False | Some aid \<Rightarrow> p_int P aid \<noteq> None) \<and>
         (case attrib e ''Charge'' of None \<Rightarrow> True | Some s \<Rightarrow> p_float P s \<noteq> None))"
    using parse_xsd_init_Inr_iff[of P root] by (simp only: atom_ok_def)
next
  fix self n assume p: "parse_xsd P root (init P) = Inr (self, n)"
  from parse_xsd_atoms[OF p] show "n = length (find_elements ''Atom3d'' root)" by simp
  from parse_xsd_positions[OF p]
  show "map (\<lambda>kv. (atom_x (snd kv), atom_y (snd kv), atom_z (snd kv))) (atoms self) =
        map (\<lambda>e. parse_xyz P (get_default e ''XYZ'' ''0,0,0'')) (find_elements ''Atom3d'' root)" .
  from parse_xsd_origin_rows[OF p]
  show "\<exists>pre post rows.
         write_lammps_data P (self, []) =
           Inr (self, pre @ [''Atoms\<newline>'', ''\<newline>''] @ rows @ [''\<newline>''] @ post) \<and>
         length rows = n \<and>
         (\<forall>k<n. \<not> (\<exists>x y z. map (p_float P)
                      (split_on CHR '','' (get_default (find_elements ''Atom3d'' root ! k) ''XYZ'' ''0,0,0'')) =
                      [Some x, Some y, Some z]) \<longrightarrow>
            rows ! k =
              show_nat (Suc k) @ '' 1 '' @
              (case atom_type (snd (atoms self ! k)) of None \<Rightarrow> ''None'' | Some t \<Rightarrow> show_nat t) @ '' '' @
              f_fmt P 6 (charge (snd (atoms self ! k))) @ '' '' @
              f_fmt P 8 (f_zero P) @ '' '' @ f_fmt P 8 (f_zero P) @ '' '' @ f_fmt P 8 (f_zero P) @
              ''\<newline>'')" .
qed

theorem malformed_xyz_is_origin_witness:
  "\<exists>self. parse_xsd whole_floats doc_CH2 (init whole_floats) = Inr (self, 3) \<and>
      map (\<lambda>e. get_default e ''XYZ'' ''0,0,0'') (find_elements ''Atom3d'' doc_CH2) =
        [''1,2,3'', ''4,0,6'', ''bad,data''] \<and>
      map (\<lambda>kv. (atom_x (snd kv), atom_y (snd kv), atom_z (snd kv))) (atoms self) =
        [(1, 2, 3), (4, 0, 6), (0, 0, 0)] \<and>
      (\<exists>pre post rows.
         write_lammps_data whole_floats (self, []) =
           Inr (self, pre @ [''Atoms\<newline>'', ''\<newline>''] @ rows @ [''\<newline>''] @ post) \<and>
         length rows = 3 \<and>
         rows ! 2 = ''3 1 2 0.000000 0.00000000 0.00000000 0.00000000\<newline>'')"
proof -
  define self where "self = fst (projr (parse_xsd whole_floats doc_CH2 (init whole_floats)))"
  have p: "parse_xsd whole_floats doc_CH2 (init whole_floats) = Inr (self, 3)"
    unfolding self_def by code_simp
  have v: "map (\<lambda>e. get_default e ''XYZ'' ''0,0,0'') (find_elements ''Atom3d'' doc_CH2) =
        [''1,2,3'', ''4,0,6'', ''bad,data'']"
    by code_simp
  have x: "map (\<lambda>e. parse_xyz whole_floats (get_default e ''XYZ'' ''0,0,0''))
        (find_elements ''Atom3d'' doc_CH2) = [(1, 2, 3), (4, 0, 6), (0, 0, 0)]"
    by code_simp
  note t = malformed_xyz_is_origin[of whole_floats doc_CH2,
      THEN conjunct2, THEN conjunct2, THEN conjunct2, rule_format, OF p]
  from t[THEN conjunct2, THEN conjunct1] x
  have c: "map (\<lambda>kv. (atom_x (snd kv), atom_y (snd kv), atom_z (snd kv))) (atoms self) =
        [(1, 2, 3), (4, 0, 6), (0, 0, 0)]"
    by (simp only:)
  from t[THEN conjunct2, THEN conjunct2] obtain pre post rows where
    w: "write_lammps_data whole_floats (self, []) =
           Inr (self, pre @ [''Atoms\<newline>'', ''\<newline>''] @ rows @ [''\<newline>''] @ post)"
    and l: "length rows = 3"
    and r: "\<forall>k<3. \<not> (\<exists>x y z. map (p_float whole_floats)
                      (split_on CHR '','' (get_default (find_elements ''Atom3d'' doc_CH2 ! k) ''XYZ'' ''0,0,0'')) =
                      [Some x, Some y, Some z]) \<longrightarrow>
            rows ! k =
              show_nat (Suc k) @ '' 1 '' @
              (case atom_type (snd (atoms self ! k)) of None \<Rightarrow> ''None'' | Some t \<Rightarrow> show_nat t) @ '' '' @
              f_fmt whole_floats 6 (charge (snd (atoms self ! k))) @ '' '' @
              f_fmt whole_floats 8 (f_zero whole_floats) @ '' '' @
              f_fmt whole_floats 8 (f_zero whole_floats) @ '' '' @
              f_fmt whole_floats 8 (f_zero whole_floats) @ ''\<newline>''"
    by (elim exE conjE)
  have parts: "map (p_float whole_floats)
      (split_on CHR '','' (get_default (find_elements ''Atom3d'' doc_CH2 ! 2) ''XYZ'' ''0,0,0'')) =
      [None, None]"
    by code_simp
  have bad: "\<not> (\<exists>x y z. map (p_float whole_floats)
      (split_on CHR '','' (get_default (find_elements ''Atom3d'' doc_CH2 ! 2) ''XYZ'' ''0,0,0'')) =
      [Some x, Some y, Some z])"
    unfolding parts by simp
  have rowtext: "show_nat (Suc 2) @ '' 1 '' @
              (case atom_type (snd (atoms self ! 2)) of None \<Rightarrow> ''None'' | Some t \<Rightarrow> show_nat t) @ '' '' @
              f_fmt whole_floats 6 (charge (snd (atoms self ! 2))) @ '' '' @
              f_fmt whole_floats 8 (f_zero whole_floats) @ '' '' @
              f_fmt whole_floats 8 (f_zero whole_floats) @ '' '' @
              f_fmt whole_floats 8 (f_zero whole_floats) @ ''\<newline>'' =
          ''3 1 2 0.000000 0.00000000 0.00000000 0.00000000\<newline>''"
    unfolding self_def by code_simp
  have "(2::nat) < 3" by simp
  with r bad have "rows ! 2 =
              show_nat (Suc 2) @ '' 1 '' @
              (case atom_type (snd (atoms self ! 2)) of None \<Rightarrow> ''None'' | Some t \<Rightarrow> show_nat t) @ '' '' @
              f_fmt whole_floats 6 (charge (snd (atoms self ! 2))) @ '' '' @
              f_fmt whole_floats 8 (f_zero whole_floats) @ '' '' @
              f_fmt whole_floats 8 (f_zero whole_floats) @ '' '' @
              f_fmt whole_floats 8 (f_zero whole_floats) @ ''\<newline>''"
    by blast
  then have r2: "rows ! 2 = ''3 1 2 0.000000 0.00000000 0.00000000 0.00000000\<newline>''"
    by (simp only: rowtext)
  from w l r2 have ex: "\<exists>pre post rows.
         write_lammps_data whole_floats (self, []) =
           Inr (self, pre @ [''Atoms\<newline>'', ''\<newline>''] @ rows @ [''\<newline>''] @ post) \<and>
         length rows = 3 \<and>
         rows ! 2 = ''3 1 2 0.000000 0.00000000 0.00000000 0.00000000\<newline>''"
    by (intro exI[of _ pre] exI[of _ post] exI[of _ rows] conjI)
  from p v c ex show ?thesis by (intro exI[of _ self] conjI)
qed

subsection \<open>C9: an atom without a source ID aborts the conversion\<close>

text \<open>
  C9. When some \<open>Atom3d\<close> element has no \<open>ID\<close> attribute, \<open>parse_xsd\<close> returns no model,
  whatever the state of the object: it raises. The exception is the \<open>TypeError\<close> of
  \<open>int(None)\<close>, or the \<open>ValueError\<close> of an earlier atom whose ID or charge does not parse;
  when every atom before the first one without an ID is well formed, it is the \<open>TypeError\<close>.
  The atom is neither skipped nor given a default ID.
\<close>

theorem missing_id_aborts:
  assumes "\<exists>e\<in>set (find_elements ''Atom3d'' root). attrib e ''ID'' = None"
  shows "(parse_xsd P root self = Inl TypeError \<or> parse_xsd P root self = Inl ValueError) \<and>
         ((\<forall>e\<in>set (takeWhile (\<lambda>e. attrib e ''ID'' \<noteq> None) (find_elements ''Atom3d'' root)).
             atom_ok P e) \<longrightarrow>
          parse_xsd P root self = Inl TypeError)"
proof -
  let ?es = "find_elements ''Atom3d'' root"
  from assms obtain e where e: "e \<in> set ?es" "attrib e ''ID'' = None" by blast
  then have "\<not> atom_ok P e" by (simp add: atom_ok_def)
  with e have "\<not> (\<exists>s'. atom_loop P 1 ?es self = Inr s')"
    using atom_loop_Inr_iff[of P 1 ?es self] by blast
  then obtain err where err: "atom_loop P 1 ?es self = Inl err"
    by (cases "atom_loop P 1 ?es self") auto
  then have "err = TypeError \<or> err = ValueError" by (rule atom_loop_Inl)
  with err have first: "parse_xsd P root self = Inl TypeError \<or> parse_xsd P root self = Inl ValueError"
    by (auto simp: parse_xsd_def)
  have second: "parse_xsd P root self = Inl TypeError"
    if ok: "\<forall>e\<in>set (takeWhile (\<lambda>e. attrib e ''ID'' \<noteq> None) ?es). atom_ok P e"
  proof -
    let ?pre = "takeWhile (\<lambda>e. attrib e ''ID'' \<noteq> None) ?es"
    let ?post = "dropWhile (\<lambda>e. attrib e ''ID'' \<noteq> None) ?es"
    from assms have ne: "?post \<noteq> []" by (simp add: dropWhile_eq_Nil_conv)
    then obtain x rest where post: "?post = x # rest" by (cases ?post) auto
    then have "attrib x ''ID'' = None"
      using hd_dropWhile[of "\<lambda>e. attrib e ''ID'' \<noteq> None" ?es] ne by fastforce
    then have "atom_loop P 1 (?pre @ x # rest) self = Inl TypeError"
      using ok by (intro atom_loop_first_missing) simp_all
    moreover have "?es = ?pre @ x # rest"
      using post takeWhile_dropWhile_id[of "\<lambda>e. attrib e ''ID'' \<noteq> None" ?es] by simp
    ultimately show ?thesis by (simp add: parse_xsd_def)
  qed
  from first second show ?thesis by blast
qed

theorem missing_id_aborts_witness:
  "(\<exists>e\<in>set (find_elements ''Atom3d'' doc_no_id). attrib e ''ID'' = None) \<and>
   parse_xsd whole_floats doc_no_id (init whole_floats) = Inl TypeError"
proof -
  have h: "\<exists>e\<in>set (find_elements ''Atom3d'' doc_no_id). attrib e ''ID'' = None"
    by code_simp
  have ok: "\<forall>e\<in>set (takeWhile (\<lambda>e. attrib e ''ID'' \<noteq> None) (find_elements ''Atom3d'' doc_no_id)).
      atom_ok whole_floats e"
    by code_simp
  from missing_id_aborts[OF h, of whole_floats "init whole_floats"] ok h
  show ?thesis by blast
qed

subsection \<open>C10: writing the file does not change the model\<close>

text \<open>
  C10. \<open>write_lammps_data\<close> always returns, whatever the object holds, and the object after
  the call is the object before it (atoms, bonds, both type tables, the box bounds and every
  other field); the file gets new lines after those it had.
\<close>

theorem write_keeps_model:
  "\<exists>lines. write_lammps_data P (self, out) = Inr (self, out @ lines)"
  unfolding write_lammps_data_lines by blast

end
